theory Spec2Isabelle
  imports Complex_Main "HOL-Library.Multiset" "HOL-Library.Sublist" "HOL-Library.Log_Nat"
begin

section \<open>Risk scoring aggregator (PropertyRiskScorer)\<close>

text \<open>
  The scorer is the Python class \<open>PropertyRiskScorer\<close> of the implementation notes
  (7.1, Weighted Risk Scoring Framework). Dictionaries whose iteration order matters
  (\<open>RISK_WEIGHTS\<close>, the per-category factor table, \<open>category_scores\<close>) are association
  lists in insertion order.
\<close>

subsection \<open>Python floats\<close>

text \<open>
  A Python float is a binary64 number. The model carries its value, a rational, and
  rounds the exact result of every operation to the nearest binary64 value, a tie going
  to the even significand, as the hardware does. \<open>binary_exponent x\<close> is the exponent
  \<open>e\<close> with \<open>2^e \<le> x < 2^(e+1)\<close>; the spacing of the doubles around \<open>x\<close> is
  \<open>2^(e-52)\<close>, and \<open>2^-1074\<close> in the subnormal range. Infinities and NaN are outside the
  model: with factor scores on a percentage scale every value of the scorer stays far
  below the largest double.
\<close>

definition round_half_even :: "rat \<Rightarrow> int" where
  "round_half_even x =
     (let f = \<lfloor>x\<rfloor>; d = x - of_int f
      in if d < 1 / 2 then f
         else if 1 / 2 < d then f + 1
         else if even f then f else f + 1)"

definition binary_exponent :: "rat \<Rightarrow> int" where
  "binary_exponent x =
     (if 1 \<le> x then bitlen \<lfloor>x\<rfloor> - 1 else - bitlen (\<lceil>1 / x\<rceil> - 1))"

definition pow2 :: "int \<Rightarrow> rat" where
  "pow2 e = (if 0 \<le> e then of_int (2 ^ nat e) else 1 / of_int (2 ^ nat (- e)))"

definition ulp :: "rat \<Rightarrow> rat" where
  "ulp x = pow2 (max (binary_exponent \<bar>x\<bar>) (- 1022) - 52)"

definition fl :: "rat \<Rightarrow> rat" where
  "fl x = (if x = 0 then 0 else let u = ulp x in of_int (round_half_even (x / u)) * u)"

text \<open>Addition, multiplication and division of floats, and \<open>sum\<close>, which adds from
  left to right starting at 0, every addition rounded: the \<open>sum\<close> of CPython 3.11, the
  version the prerequisites of the repository name (from 3.12 on, \<open>sum\<close> compensates
  the rounding errors of a float sum; the model does not follow that).\<close>

definition fadd :: "rat \<Rightarrow> rat \<Rightarrow> rat" where
  "fadd x y = fl (x + y)"

definition fmul :: "rat \<Rightarrow> rat \<Rightarrow> rat" where
  "fmul x y = fl (x * y)"

definition fdiv :: "rat \<Rightarrow> rat \<Rightarrow> rat" where
  "fdiv x y = fl (x / y)"

definition fsum :: "rat list \<Rightarrow> rat" where
  "fsum xs = foldl fadd 0 xs"

text \<open>\<open>round(x, 1)\<close> is correctly rounded: the decimal with one digit nearest to the
  value of \<open>x\<close>, an exact tie going to the even digit, and then the double nearest to
  that decimal.\<close>

definition py_round1 :: "rat \<Rightarrow> rat" where
  "py_round1 x = fl (of_int (round_half_even (x * 10)) / 10)"

subsection \<open>The scorer\<close>

datatype rating = LOW | MODERATE | ELEVATED | HIGH | CRITICAL

text \<open>One entry of \<open>RISK_WEIGHTS\<close>: the category weight, the factor weights in table
  order, and the optional \<open>applies_to\<close> list of property types.\<close>

record category_config =
  cfg_weight :: rat
  cfg_factors :: "(string \<times> rat) list"
  cfg_applies_to :: "string list option"

text \<open>The dictionaries appended to \<open>factor_details\<close>
  (keys \<open>factor\<close>, \<open>raw_score\<close>, \<open>weight\<close>, \<open>weighted_score\<close>).\<close>

record factor_detail =
  fd_factor :: string
  fd_raw_score :: rat
  fd_weight :: rat
  fd_weighted_score :: rat

text \<open>The value stored under \<open>category_scores[category]\<close>
  (keys \<open>score\<close>, \<open>weight\<close>, \<open>weighted_contribution\<close>, \<open>factors\<close>).\<close>

record category_result =
  cr_score :: rat
  cr_weight :: rat
  cr_weighted_contribution :: rat
  cr_factors :: "factor_detail list"

text \<open>The dictionaries built by \<open>_get_top_risks\<close>
  (keys \<open>category\<close>, \<open>factor\<close>, \<open>score\<close>, \<open>impact\<close>).\<close>

record top_risk =
  tr_category :: string
  tr_factor :: string
  tr_score :: rat
  tr_impact :: rat

text \<open>The dictionary returned by \<open>calculate_risk_score\<close>.\<close>

record 'c risk_report =
  overall_risk_score :: rat
  risk_rating :: rating
  category_breakdown :: "(string \<times> category_result) list"
  top_risk_factors :: "top_risk list"
  confidence_level :: 'c

text \<open>
  \<open>all_analyses\<close> is a dictionary of which the scorer itself reads one key,
  \<open>property_type\<close> (\<open>None\<close> when the key is absent); everything else is read by the two
  helpers \<open>_get_factor_score\<close> and \<open>_calculate_confidence\<close>, which the class calls and does
  not define. They are parameters \<open>gfs\<close> and \<open>conf\<close> of the model, functions of the
  analyses. A factor score is a Python number; the model takes it as a rational, which
  covers every float and every integer that converts to a float without rounding.
\<close>

record analyses =
  property_type :: "string option"

text \<open>The class constant. A decimal literal denotes the double nearest to it.\<close>

definition RISK_WEIGHTS :: "(string \<times> category_config) list" where
  "RISK_WEIGHTS =
   [(''legal'', \<lparr>cfg_weight = fl (25 / 100),
       cfg_factors = [(''caveat_risk'', fl (20 / 100)), (''covenant_impact'', fl (15 / 100)),
         (''easement_building_conflict'', fl (15 / 100)),
         (''section_32_completeness'', fl (20 / 100)),
         (''special_conditions_risk'', fl (15 / 100)), (''proprietor_mismatch'', fl (15 / 100))],
       cfg_applies_to = None\<rparr>),
    (''title_encumbrance'', \<lparr>cfg_weight = fl (15 / 100),
       cfg_factors = [(''caveat_severity'', fl (30 / 100)), (''covenant_blocks_use'', fl (30 / 100)),
         (''section_173_obligations'', fl (20 / 100)), (''easement_extent'', fl (20 / 100))],
       cfg_applies_to = None\<rparr>),
    (''planning'', \<lparr>cfg_weight = fl (15 / 100),
       cfg_factors = [(''development_potential_mismatch'', fl (25 / 100)),
         (''overlay_restrictions'', fl (25 / 100)), (''illegal_works_detected'', fl (30 / 100)),
         (''heritage_impact'', fl (20 / 100))],
       cfg_applies_to = None\<rparr>),
    (''physical'', \<lparr>cfg_weight = fl (15 / 100),
       cfg_factors = [(''structural_defects'', fl (35 / 100)), (''termite_risk'', fl (20 / 100)),
         (''asbestos_risk'', fl (15 / 100)), (''roof_condition'', fl (15 / 100)),
         (''illegal_works'', fl (15 / 100))],
       cfg_applies_to = None\<rparr>),
    (''strata'', \<lparr>cfg_weight = fl (10 / 100),
       cfg_factors = [(''financial_health'', fl (30 / 100)), (''cladding_risk'', fl (30 / 100)),
         (''special_levy_history'', fl (20 / 100)), (''bylaw_conflicts'', fl (20 / 100))],
       cfg_applies_to = Some [''apartment'', ''townhouse'', ''unit'']\<rparr>),
    (''environmental'', \<lparr>cfg_weight = fl (10 / 100),
       cfg_factors = [(''flood_risk'', fl (25 / 100)), (''bushfire_risk'', fl (25 / 100)),
         (''contamination_risk'', fl (25 / 100)), (''flight_path'', fl (15 / 100)),
         (''social_housing_density'', fl (10 / 100))],
       cfg_applies_to = None\<rparr>),
    (''financial'', \<lparr>cfg_weight = fl (10 / 100),
       cfg_factors = [(''price_vs_comparables'', fl (40 / 100)), (''yield_adequacy'', fl (30 / 100)),
         (''cash_flow_viability'', fl (30 / 100))],
       cfg_applies_to = None\<rparr>)]"

text \<open>The guard of the category loop, which the \<open>max_possible\<close> generator repeats:
  a category without \<open>applies_to\<close> always applies, one with it applies when
  \<open>all_analyses.get("property_type")\<close> is in the list.\<close>

definition applies :: "'a analyses_scheme \<Rightarrow> category_config \<Rightarrow> bool" where
  "applies a cfg =
     (case cfg_applies_to cfg of
        None \<Rightarrow> True
      | Some ts \<Rightarrow> (case property_type a of None \<Rightarrow> False | Some t \<Rightarrow> t \<in> set ts))"

text \<open>The inner loop over \<open>config["factors"]\<close>: one detail per factor.\<close>

definition factor_details ::
  "('a analyses_scheme \<Rightarrow> string \<Rightarrow> string \<Rightarrow> rat) \<Rightarrow> 'a analyses_scheme \<Rightarrow> string \<Rightarrow>
   (string \<times> rat) list \<Rightarrow> factor_detail list" where
  "factor_details gfs a category fs =
     map (\<lambda>(f, factor_weight).
            \<lparr>fd_factor = f, fd_raw_score = gfs a category f, fd_weight = factor_weight,
             fd_weighted_score = fmul (gfs a category f) factor_weight\<rparr>) fs"

text \<open>The body of the category loop for one applicable category; \<open>category_score\<close> is
  the running sum of the weighted factor scores, from 0.\<close>

definition category_entry ::
  "('a analyses_scheme \<Rightarrow> string \<Rightarrow> string \<Rightarrow> rat) \<Rightarrow> 'a analyses_scheme \<Rightarrow> string \<Rightarrow>
   category_config \<Rightarrow> category_result" where
  "category_entry gfs a category cfg =
     (let details = factor_details gfs a category (cfg_factors cfg);
          category_score = fsum (map fd_weighted_score details)
      in \<lparr>cr_score = py_round1 category_score,
          cr_weight = cfg_weight cfg,
          cr_weighted_contribution = py_round1 (fmul category_score (cfg_weight cfg)),
          cr_factors = details\<rparr>)"

definition category_scores ::
  "(string \<times> category_config) list \<Rightarrow> ('a analyses_scheme \<Rightarrow> string \<Rightarrow> string \<Rightarrow> rat) \<Rightarrow>
   'a analyses_scheme \<Rightarrow> (string \<times> category_result) list" where
  "category_scores rw gfs a =
     map (\<lambda>(category, cfg). (category, category_entry gfs a category cfg))
       (filter (\<lambda>(category, cfg). applies a cfg) rw)"

definition total_score :: "(string \<times> category_result) list \<Rightarrow> rat" where
  "total_score cs = fsum (map (\<lambda>(category, cat). cr_weighted_contribution cat) cs)"

definition max_possible :: "(string \<times> category_config) list \<Rightarrow> 'a analyses_scheme \<Rightarrow> rat" where
  "max_possible rw a =
     fsum (map (\<lambda>(cat, cfg). fmul (cfg_weight cfg) 100)
             (filter (\<lambda>(cat, cfg). applies a cfg) rw))"

definition normalized_score ::
  "(string \<times> category_config) list \<Rightarrow> ('a analyses_scheme \<Rightarrow> string \<Rightarrow> string \<Rightarrow> rat) \<Rightarrow>
   'a analyses_scheme \<Rightarrow> rat" where
  "normalized_score rw gfs a =
     (if 0 < max_possible rw a
      then fmul (fdiv (total_score (category_scores rw gfs a)) (max_possible rw a)) 100
      else 50)"

text \<open>The same conditional expression with Python's division written out, which
  raises \<open>ZeroDivisionError\<close> on a zero divisor.\<close>

datatype py_error = ZeroDivisionError

definition py_truediv :: "rat \<Rightarrow> rat \<Rightarrow> py_error + rat" where
  "py_truediv x y = (if y = 0 then Inl ZeroDivisionError else Inr (fl (x / y)))"

definition normalized_score_result ::
  "(string \<times> category_config) list \<Rightarrow> ('a analyses_scheme \<Rightarrow> string \<Rightarrow> string \<Rightarrow> rat) \<Rightarrow>
   'a analyses_scheme \<Rightarrow> py_error + rat" where
  "normalized_score_result rw gfs a =
     (if 0 < max_possible rw a
      then (case py_truediv (total_score (category_scores rw gfs a)) (max_possible rw a) of
              Inl e \<Rightarrow> Inl e
            | Inr q \<Rightarrow> Inr (fmul q 100))
      else Inr 50)"

definition score_to_rating :: "rat \<Rightarrow> rating" where
  "score_to_rating s =
     (if s < 20 then LOW
      else if s < 40 then MODERATE
      else if s < 60 then ELEVATED
      else if s < 80 then HIGH
      else CRITICAL)"

text \<open>\<open>_get_top_risks\<close>: flatten the factor details of every category, sort by the key
  \<open>x["score"]\<close> with \<open>reverse=True\<close> (Python's sort is stable, and stays so under
  \<open>reverse\<close>: equal keys keep their original order), and slice \<open>[:n]\<close>.\<close>

definition all_factors :: "(string \<times> category_result) list \<Rightarrow> top_risk list" where
  "all_factors cs =
     concat (map (\<lambda>(category, data).
                    map (\<lambda>fd. \<lparr>tr_category = category, tr_factor = fd_factor fd,
                               tr_score = fd_raw_score fd, tr_impact = fd_weighted_score fd\<rparr>)
                        (cr_factors data)) cs)"

definition get_top_risks :: "(string \<times> category_result) list \<Rightarrow> nat \<Rightarrow> top_risk list" where
  "get_top_risks cs n = take n (sort_key (\<lambda>x. - tr_score x) (all_factors cs))"

text \<open>\<open>calculate_risk_score\<close> over an explicit weight table, and over the class constant.\<close>

definition calculate_risk_score_with ::
  "(string \<times> category_config) list \<Rightarrow> ('a analyses_scheme \<Rightarrow> string \<Rightarrow> string \<Rightarrow> rat) \<Rightarrow>
   ('a analyses_scheme \<Rightarrow> 'c) \<Rightarrow> 'a analyses_scheme \<Rightarrow> 'c risk_report" where
  "calculate_risk_score_with rw gfs conf a =
     \<lparr>overall_risk_score = py_round1 (normalized_score rw gfs a),
      risk_rating = score_to_rating (normalized_score rw gfs a),
      category_breakdown = category_scores rw gfs a,
      top_risk_factors = get_top_risks (category_scores rw gfs a) 5,
      confidence_level = conf a\<rparr>"

definition calculate_risk_score ::
  "('a analyses_scheme \<Rightarrow> string \<Rightarrow> string \<Rightarrow> rat) \<Rightarrow> ('a analyses_scheme \<Rightarrow> 'c) \<Rightarrow>
   'a analyses_scheme \<Rightarrow> 'c risk_report" where
  "calculate_risk_score = calculate_risk_score_with RISK_WEIGHTS"

text \<open>The categories of the table that apply to the property, in table order, and the
  running sum \<open>category_score\<close> of one of them, from the inputs.\<close>

definition applicable ::
  "(string \<times> category_config) list \<Rightarrow> 'a analyses_scheme \<Rightarrow> (string \<times> category_config) list" where
  "applicable rw a = filter (\<lambda>(category, cfg). applies a cfg) rw"

definition category_score ::
  "('a analyses_scheme \<Rightarrow> string \<Rightarrow> string \<Rightarrow> rat) \<Rightarrow> 'a analyses_scheme \<Rightarrow> string \<Rightarrow>
   category_config \<Rightarrow> rat" where
  "category_score gfs a category cfg =
     fsum (map (\<lambda>(f, factor_weight). fmul (gfs a category f) factor_weight) (cfg_factors cfg))"

subsection \<open>The spec's formulas, for comparison with the code\<close>

text \<open>The category score without rounding: the sum of factor score times factor
  weight.\<close>

definition exact_category_score ::
  "('a analyses_scheme \<Rightarrow> string \<Rightarrow> string \<Rightarrow> rat) \<Rightarrow> 'a analyses_scheme \<Rightarrow> string \<Rightarrow>
   category_config \<Rightarrow> rat" where
  "exact_category_score gfs a category cfg =
     sum_list (map (\<lambda>(f, factor_weight). gfs a category f * factor_weight) (cfg_factors cfg))"

text \<open>The spec's overall score: the sum of category score times category weight over
  the sum of the category weights, both over the categories present.\<close>

definition spec_overall ::
  "(string \<times> category_config) list \<Rightarrow> ('a analyses_scheme \<Rightarrow> string \<Rightarrow> string \<Rightarrow> rat) \<Rightarrow>
   'a analyses_scheme \<Rightarrow> rat" where
  "spec_overall rw gfs a =
     sum_list (map (\<lambda>(category, cfg). exact_category_score gfs a category cfg * cfg_weight cfg)
                 (applicable rw a))
     / sum_list (map (\<lambda>(category, cfg). cfg_weight cfg) (applicable rw a))"

text \<open>The spec's rating bands, read on a score.\<close>

definition spec_rating :: "rat \<Rightarrow> rating" where
  "spec_rating s =
     (if s < 20 then LOW
      else if s < 40 then MODERATE
      else if s < 60 then ELEVATED
      else if s < 80 then HIGH
      else CRITICAL)"

text \<open>\<open>top_n_by key n A L\<close>: the list \<open>L\<close> is a choice of the \<open>n\<close> elements of \<open>A\<close> with
  the highest \<open>key\<close> (all of \<open>A\<close> when it has fewer): it has that many elements, they are
  taken from \<open>A\<close>, and no element left over has a higher key than a chosen one. The
  elements left over are \<open>fold remove1 L A\<close>.\<close>

definition top_n_by :: "('a \<Rightarrow> rat) \<Rightarrow> nat \<Rightarrow> 'a list \<Rightarrow> 'a list \<Rightarrow> bool" where
  "top_n_by key n A L \<longleftrightarrow>
     length L = min n (length A) \<and>
     length (fold remove1 L A) + length L = length A \<and>
     list_all (\<lambda>x. list_all (\<lambda>y. key y \<le> key x) (fold remove1 L A)) L"

text \<open>What the table must satisfy for the score to stay within 0 to 100: a category
  weight that is not negative and whose hundredfold is left unchanged by \<open>round(., 1)\<close>,
  and factor weights that are not negative and whose hundredfolds sum to at most 100.\<close>

definition weights_ok :: "category_config \<Rightarrow> bool" where
  "weights_ok cfg \<longleftrightarrow>
     0 \<le> cfg_weight cfg \<and>
     py_round1 (fmul (cfg_weight cfg) 100) = fmul (cfg_weight cfg) 100 \<and>
     list_all (\<lambda>(f, w). 0 \<le> w) (cfg_factors cfg) \<and>
     fsum (map (\<lambda>(f, w). fmul 100 w) (cfg_factors cfg)) \<le> 100"

subsection \<open>Concrete inputs\<close>

definition house :: analyses where
  "house = \<lparr>property_type = Some ''house''\<rparr>"

text \<open>A confidence helper that reports nothing.\<close>

definition no_confidence :: "'a analyses_scheme \<Rightarrow> unit" where
  "no_confidence a = ()"

text \<open>Every factor scores 0.16.\<close>

definition gfs_flat :: "'a analyses_scheme \<Rightarrow> string \<Rightarrow> string \<Rightarrow> rat" where
  "gfs_flat a category f = fl (16 / 100)"

text \<open>Six factors score above zero; the one with the highest raw score has the lowest
  weight.\<close>

definition gfs_mixed :: "'a analyses_scheme \<Rightarrow> string \<Rightarrow> string \<Rightarrow> rat" where
  "gfs_mixed a category f =
     (if f = ''social_housing_density'' then 90
      else if f = ''structural_defects'' then 80
      else if f = ''price_vs_comparables'' then 70
      else if f = ''illegal_works_detected'' then 60
      else if f = ''caveat_severity'' then 50
      else if f = ''covenant_blocks_use'' then 45
      else 0)"

text \<open>Every legal factor scores 53, every title factor 23, every environmental
  factor 14, and all others 0.\<close>

definition gfs_edge :: "'a analyses_scheme \<Rightarrow> string \<Rightarrow> string \<Rightarrow> rat" where
  "gfs_edge a category f =
     (if category = ''legal'' then 53
      else if category = ''title_encumbrance'' then 23
      else if category = ''environmental'' then 14
      else 0)"

text \<open>A table whose only category is restricted to strata property types.\<close>

definition strata_only :: "(string \<times> category_config) list" where
  "strata_only =
     [(''strata'', \<lparr>cfg_weight = fl (10 / 100),
         cfg_factors = [(''financial_health'', fl (30 / 100)), (''cladding_risk'', fl (30 / 100)),
           (''special_levy_history'', fl (20 / 100)), (''bylaw_conflicts'', fl (20 / 100))],
         cfg_applies_to = Some [''apartment'', ''townhouse'', ''unit'']\<rparr>)]"

section \<open>Property input form (PropertyInput.tsx)\<close>

text \<open>
  A JavaScript string is a sequence of UTF-16 code units, here integers from 0 to 65535;
  \<open>js\<close> turns an ASCII literal into its code units. \<open>String.prototype.includes\<close>
  searches for a contiguous run of code units.
\<close>

type_synonym js_string = "int list"

definition js :: "string \<Rightarrow> js_string" where
  "js s = map of_char s"

fun starts_with :: "js_string \<Rightarrow> js_string \<Rightarrow> bool" where
  "starts_with s [] = True"
| "starts_with [] (c # cs) = False"
| "starts_with (x # xs) (c # cs) = (x = c \<and> starts_with xs cs)"

fun js_includes :: "js_string \<Rightarrow> js_string \<Rightarrow> bool" where
  "js_includes [] searchString = starts_with [] searchString"
| "js_includes (x # xs) searchString =
     (starts_with (x # xs) searchString \<or> js_includes xs searchString)"

text \<open>\<open>String.prototype.trim\<close> strips white space and line terminators from both
  ends.\<close>

definition js_whitespace :: "int \<Rightarrow> bool" where
  "js_whitespace c \<longleftrightarrow>
     c \<in> set [9, 10, 11, 12, 13, 32, 160, 5760, 8192, 8193, 8194, 8195, 8196, 8197, 8198,
              8199, 8200, 8201, 8202, 8232, 8233, 8239, 8287, 12288, 65279]"

definition trim :: "js_string \<Rightarrow> js_string" where
  "trim s = rev (dropWhile js_whitespace (rev (dropWhile js_whitespace s)))"

text \<open>The component state the URL form depends on: the \<open>url\<close>, \<open>showManualForm\<close> and
  \<open>scrapeError\<close> state variables and the \<open>isPending\<close> flag of \<open>scrapeMutation\<close>.\<close>

record url_form =
  url :: js_string
  showManualForm :: bool
  scrapeError :: "js_string option"
  isPending :: bool

definition isValidUrl :: "url_form \<Rightarrow> bool" where
  "isValidUrl st \<longleftrightarrow>
     js_includes (url st) (js ''domain.com.au'') \<or>
     js_includes (url st) (js ''realestate.com.au'')"

text \<open>The \<open>disabled\<close> attribute of the Analyze button.\<close>

definition analyze_disabled :: "url_form \<Rightarrow> bool" where
  "analyze_disabled st \<longleftrightarrow> \<not> isValidUrl st \<or> isPending st"

text \<open>\<open>handleUrlSubmit\<close>: the new state and the argument handed to
  \<open>scrapeMutation.mutate\<close>, if it is called.\<close>

definition handleUrlSubmit :: "url_form \<Rightarrow> url_form \<times> js_string option" where
  "handleUrlSubmit st =
     (if trim (url st) \<noteq> []
      then (st\<lparr>scrapeError := None\<rparr>, Some (trim (url st)))
      else (st, None))"

text \<open>Submitting the URL form through its submit button: the form is rendered only
  while the manual form is hidden, and a disabled button submits nothing.\<close>

definition submit_url_form :: "url_form \<Rightarrow> url_form \<times> js_string option" where
  "submit_url_form st =
     (if showManualForm st \<or> analyze_disabled st then (st, None) else handleUrlSubmit st)"

definition other_listing :: url_form where
  "other_listing = \<lparr>url = js ''https://www.example.com/listing/42'', showManualForm = False,
     scrapeError = None, isPending = False\<rparr>"

definition domain_listing :: url_form where
  "domain_listing = \<lparr>url = js '' https://www.domain.com.au/12-smith-st-2000 '',
     showManualForm = False, scrapeError = None, isPending = False\<rparr>"

section \<open>Gatekeeper rule engine\<close>

text \<open>
  Modelled from the spec: the rule engine (\<open>services/gatekeeper/kill_criteria.py\<close>) is
  not among the sources; only the consumers of its verdict are. Everything in this
  section follows sections 3 and 4.1 of the specification.
\<close>

text \<open>Modelled from the spec: the value of a fact, a measurement, a category or a
  boolean.\<close>

datatype fact_value = Measurement rat | Category string | Boolean bool

text \<open>Modelled from the spec: the Fact record.\<close>

record fact =
  fact_key :: string
  fact_value :: fact_value
  fact_source :: string
  fact_confidence :: rat
  retrieved_at :: nat

text \<open>Modelled from the spec: rule severities and verdicts.\<close>

datatype severity = PASS | WARNING | FAIL | KILL

datatype verdict = PROCEED | REVIEW | REJECT

text \<open>Modelled from the spec: the Rule record. \<open>fact_keys\<close> names the facts the
  predicate reads, which the engine needs to find the check that a missing or
  low-confidence fact corresponds to.\<close>

record rule =
  rule_id :: string
  rule_category :: string
  predicate :: "fact list \<Rightarrow> bool"
  rule_severity :: severity
  message_template :: string
  rule_order :: int
  fact_keys :: "string list"

text \<open>Modelled from the spec: a CheckResult; its score is PASS, WARNING or FAIL.\<close>

record check_result =
  check_category :: string
  check_score :: severity
  check_detail :: string
  data_incomplete :: bool

text \<open>Modelled from the spec: the GatekeeperResult.\<close>

record gatekeeper_result =
  result_verdict :: verdict
  checks :: "check_result list"
  kill_reasons :: "string list"

text \<open>Modelled from the spec: the loaded rule configuration passed into the engine,
  with the configured confidence floor.\<close>

record rule_set =
  rules :: "rule list"
  confidence_floor :: rat

text \<open>Modelled from the spec: the state of the evaluation loop, namely the categories
  a KILL rule has closed, whether a WARNING rule has fired, and the output so far.\<close>

record engine_state =
  killed_categories :: "string list"
  warning_fired :: bool
  checks_so_far :: "check_result list"
  kill_reasons_so_far :: "string list"

text \<open>Modelled from the spec: the fact with a given key, if the fact set has one.\<close>

definition lookup_fact :: "fact list \<Rightarrow> string \<Rightarrow> fact option" where
  "lookup_fact facts k = find (\<lambda>f. fact_key f = k) facts"

text \<open>Modelled from the spec: a fact is unreliable when it is missing or its
  confidence is below the floor.\<close>

definition fact_unreliable :: "rat \<Rightarrow> fact list \<Rightarrow> string \<Rightarrow> bool" where
  "fact_unreliable cfloor facts k =
     (case lookup_fact facts k of None \<Rightarrow> True | Some f \<Rightarrow> fact_confidence f < cfloor)"

text \<open>Modelled from the spec: the check score of a rule that fired; a check has no
  KILL score, a fired KILL rule shows as FAIL.\<close>

definition fired_score :: "severity \<Rightarrow> severity" where
  "fired_score sev = (case sev of KILL \<Rightarrow> FAIL | s \<Rightarrow> s)"

text \<open>Modelled from the spec: one step of the loop. A rule of a category that a KILL
  rule has closed is skipped (the short circuit within the category). A rule that fires
  records its check, and a KILL rule also closes its category and appends its message to
  the kill reasons. A rule that does not fire passes, unless one of its facts is missing
  or below the confidence floor: then its check is degraded to WARNING and flagged
  \<open>data_incomplete\<close>.\<close>

definition evaluate_rule :: "rat \<Rightarrow> fact list \<Rightarrow> rule \<Rightarrow> engine_state \<Rightarrow> engine_state" where
  "evaluate_rule cfloor facts r s =
     (if rule_category r \<in> set (killed_categories s) then s
      else if predicate r facts then
        \<lparr>killed_categories =
           (if rule_severity r = KILL then killed_categories s @ [rule_category r]
            else killed_categories s),
         warning_fired = (warning_fired s \<or> rule_severity r = WARNING),
         checks_so_far = checks_so_far s @
           [\<lparr>check_category = rule_category r, check_score = fired_score (rule_severity r),
             check_detail = message_template r, data_incomplete = False\<rparr>],
         kill_reasons_so_far =
           (if rule_severity r = KILL then kill_reasons_so_far s @ [message_template r]
            else kill_reasons_so_far s)\<rparr>
      else if list_ex (fact_unreliable cfloor facts) (fact_keys r) then
        s\<lparr>checks_so_far := checks_so_far s @
           [\<lparr>check_category = rule_category r, check_score = WARNING,
             check_detail = message_template r, data_incomplete = True\<rparr>]\<rparr>
      else
        s\<lparr>checks_so_far := checks_so_far s @
           [\<lparr>check_category = rule_category r, check_score = PASS,
             check_detail = message_template r, data_incomplete = False\<rparr>]\<rparr>)"

text \<open>Modelled from the spec: the evaluation loop over the rules in order.\<close>

fun evaluate_rules :: "rat \<Rightarrow> fact list \<Rightarrow> rule list \<Rightarrow> engine_state \<Rightarrow> engine_state" where
  "evaluate_rules cfloor facts [] s = s"
| "evaluate_rules cfloor facts (r # rs) s =
     evaluate_rules cfloor facts rs (evaluate_rule cfloor facts r s)"

text \<open>Modelled from the spec: the state before the first rule.\<close>

definition initial_state :: engine_state where
  "initial_state = \<lparr>killed_categories = [], warning_fired = False, checks_so_far = [],
     kill_reasons_so_far = []\<rparr>"

text \<open>Modelled from the spec: the verdict derivation. REJECT if a rule fired with
  severity KILL, else REVIEW if a rule fired with severity WARNING, else PROCEED.\<close>

definition derive_verdict :: "engine_state \<Rightarrow> verdict" where
  "derive_verdict s =
     (if killed_categories s \<noteq> [] then REJECT
      else if warning_fired s then REVIEW
      else PROCEED)"

text \<open>Modelled from the spec: \<open>evaluate\<close>, over the rules sorted by their
  \<open>order\<close> field.\<close>

definition evaluate :: "rule_set \<Rightarrow> fact list \<Rightarrow> gatekeeper_result" where
  "evaluate rs facts =
     (let s = evaluate_rules (confidence_floor rs) facts (sort_key rule_order (rules rs))
                initial_state
      in \<lparr>result_verdict = derive_verdict s, checks = checks_so_far s,
          kill_reasons = kill_reasons_so_far s\<rparr>)"

text \<open>Modelled from the spec: the rules and facts of the scenario of section 8, with
  a density rule of severity WARNING added.\<close>

definition flood_rule :: rule where
  "flood_rule = \<lparr>rule_id = ''flood'', rule_category = ''flood'',
     predicate = (\<lambda>facts. case lookup_fact facts ''flood_overlay'' of
                    Some f \<Rightarrow> fact_value f = Boolean True | None \<Rightarrow> False),
     rule_severity = KILL, message_template = ''flood risk'', rule_order = 1,
     fact_keys = [''flood_overlay'']\<rparr>"

definition anef_rule :: rule where
  "anef_rule = \<lparr>rule_id = ''anef'', rule_category = ''flight_path'',
     predicate = (\<lambda>facts. case lookup_fact facts ''anef'' of
                    Some f \<Rightarrow> (case fact_value f of Measurement m \<Rightarrow> 20 < m | _ \<Rightarrow> False)
                  | None \<Rightarrow> False),
     rule_severity = KILL, message_template = ''aircraft noise'', rule_order = 2,
     fact_keys = [''anef'']\<rparr>"

definition density_rule :: rule where
  "density_rule = \<lparr>rule_id = ''density'', rule_category = ''social_housing'',
     predicate = (\<lambda>facts. case lookup_fact facts ''social_housing_density'' of
                    Some f \<Rightarrow> (case fact_value f of Measurement m \<Rightarrow> 15 < m | _ \<Rightarrow> False)
                  | None \<Rightarrow> False),
     rule_severity = WARNING, message_template = ''social housing density'', rule_order = 3,
     fact_keys = [''social_housing_density'']\<rparr>"

definition scenario_rules :: rule_set where
  "scenario_rules = \<lparr>rules = [anef_rule, density_rule, flood_rule], confidence_floor = 1 / 2\<rparr>"

definition scenario_facts :: "fact list" where
  "scenario_facts =
     [\<lparr>fact_key = ''flood_overlay'', fact_value = Boolean True, fact_source = ''spatial'',
        fact_confidence = 1, retrieved_at = 0\<rparr>,
      \<lparr>fact_key = ''anef'', fact_value = Measurement 12, fact_source = ''airservices'',
        fact_confidence = 1, retrieved_at = 0\<rparr>,
      \<lparr>fact_key = ''social_housing_density'', fact_value = Measurement 18,
        fact_source = ''census'', fact_confidence = 1, retrieved_at = 0\<rparr>]"

section \<open>Document pipeline\<close>

text \<open>
  Modelled from the spec: the chunker (\<open>services/documents/chunking.py\<close>) is not among
  the sources. Everything in this section follows sections 3, 4.2 and 7 of the
  specification. What the specification leaves to configuration or to a collaborator
  (the token budget, the tokenizer, the recogniser of structural markers, the embedding,
  the confidence floor of the OCR) is a field of the configuration.
\<close>

text \<open>Modelled from the spec: a page of text from the OCR collaborator, with its
  confidence.\<close>

record page_text =
  page_content :: string
  ocr_confidence :: rat

text \<open>Modelled from the spec: structural tags. \<open>Paragraph\<close> tags text before the first
  marker, \<open>Fallback\<close> the single chunk of a page without extractable structure.\<close>

datatype structural_tag = Heading | Clause | TableRow | Paragraph | Fallback

text \<open>Modelled from the spec: the configuration of the chunker.\<close>

record 'v chunker_config =
  max_tokens :: nat
  count_tokens :: "string \<Rightarrow> nat"
  marker :: "string \<Rightarrow> structural_tag option"
  embed :: "string \<Rightarrow> 'v"
  ocr_floor :: rat

text \<open>Modelled from the spec: the DocumentChunk record, with the \<open>split\<close> and
  \<open>low_confidence\<close> tags.\<close>

record 'v document_chunk =
  chunk_id :: "string \<times> nat"
  document_id :: string
  ordinal :: nat
  chunk_text :: string
  structural_tag :: structural_tag
  page_number :: nat
  embedding_vector :: 'v
  split :: bool
  low_confidence :: bool

text \<open>Modelled from the spec: a chunk before it is numbered and embedded.\<close>

record piece =
  piece_tag :: structural_tag
  piece_text :: string
  piece_split :: bool

text \<open>Modelled from the spec: cutting a text after every element that satisfies
  \<open>P\<close>, the delimiter staying with the part it ends.\<close>

fun split_after :: "('a \<Rightarrow> bool) \<Rightarrow> 'a list \<Rightarrow> 'a list list" where
  "split_after P [] = []"
| "split_after P (x # xs) =
     (if P x then [x] # split_after P xs
      else (case split_after P xs of [] \<Rightarrow> [[x]] | ys # yss \<Rightarrow> (x # ys) # yss))"

text \<open>Modelled from the spec: the lines of a page, each with its line feed.\<close>

definition lines :: "string \<Rightarrow> string list" where
  "lines s = split_after (\<lambda>c. c = CHR 0x0A) s"

text \<open>Modelled from the spec: sentence boundaries, after a full stop, an exclamation
  mark or a question mark.\<close>

definition sentence_end :: "char \<Rightarrow> bool" where
  "sentence_end c \<longleftrightarrow> c \<in> set ''.!?''"

definition sentences :: "string \<Rightarrow> string list" where
  "sentences s = split_after sentence_end s"

text \<open>Modelled from the spec: structural units. A line that carries a marker opens
  a unit, the lines without a marker that follow belong to it; lines before the first
  marker form a paragraph.\<close>

function group_units ::
  "(string \<Rightarrow> structural_tag option) \<Rightarrow> string list \<Rightarrow> (structural_tag \<times> string) list" where
  "group_units m [] = []"
| "group_units m (l # ls) =
     ((case m l of Some t \<Rightarrow> t | None \<Rightarrow> Paragraph),
      concat (l # takeWhile (\<lambda>x. m x = None) ls))
     # group_units m (dropWhile (\<lambda>x. m x = None) ls)"
  by pat_completeness auto
termination
  by (relation "measure (\<lambda>(m, ls). length ls)") (auto simp: length_dropWhile_le less_Suc_eq_le)

text \<open>Modelled from the spec: the fallback for a unit that exceeds the budget alone.
  Its sentences are accumulated greedily up to the budget; a sentence is never cut.\<close>

fun pack_sentences :: "'v chunker_config \<Rightarrow> string option \<Rightarrow> string list \<Rightarrow> string list" where
  "pack_sentences cfg None [] = []"
| "pack_sentences cfg (Some cur) [] = [cur]"
| "pack_sentences cfg None (s # ss) = pack_sentences cfg (Some s) ss"
| "pack_sentences cfg (Some cur) (s # ss) =
     (if count_tokens cfg (cur @ s) \<le> max_tokens cfg
      then pack_sentences cfg (Some (cur @ s)) ss
      else cur # pack_sentences cfg (Some s) ss)"

text \<open>Modelled from the spec: closing the chunk under construction.\<close>

definition flush :: "(structural_tag \<times> string) option \<Rightarrow> piece list" where
  "flush cur = (case cur of None \<Rightarrow> []
     | Some (t, s) \<Rightarrow> [\<lparr>piece_tag = t, piece_text = s, piece_split = False\<rparr>])"

text \<open>Modelled from the spec: greedy accumulation of structural units into chunks up
  to the token budget. A unit that fits is never split: it joins the chunk under
  construction or opens the next one. A unit that exceeds the budget alone closes the
  chunk under construction and is split at sentence boundaries into chunks tagged
  \<open>split\<close>.\<close>

fun pack :: "'v chunker_config \<Rightarrow> (structural_tag \<times> string) option \<Rightarrow>
    (structural_tag \<times> string) list \<Rightarrow> piece list" where
  "pack cfg cur [] = flush cur"
| "pack cfg cur ((t, u) # us) =
     (if max_tokens cfg < count_tokens cfg u then
        flush cur
        @ map (\<lambda>s. \<lparr>piece_tag = t, piece_text = s, piece_split = True\<rparr>)
            (pack_sentences cfg None (sentences u))
        @ pack cfg None us
      else (case cur of
              None \<Rightarrow> pack cfg (Some (t, u)) us
            | Some (t0, s) \<Rightarrow>
                if count_tokens cfg (s @ u) \<le> max_tokens cfg
                then pack cfg (Some (t0, s @ u)) us
                else \<lparr>piece_tag = t0, piece_text = s, piece_split = False\<rparr>
                     # pack cfg (Some (t, u)) us))"

text \<open>Modelled from the spec: the chunks of one page. A page without any structural
  marker (MalformedDocument) becomes a single fallback chunk.\<close>

definition chunk_page :: "'v chunker_config \<Rightarrow> string \<Rightarrow> piece list" where
  "chunk_page cfg txt =
     (let ls = lines txt
      in if list_all (\<lambda>l. marker cfg l = None) ls
         then [\<lparr>piece_tag = Fallback, piece_text = txt, piece_split = False\<rparr>]
         else pack cfg None (group_units (marker cfg) ls))"

text \<open>Modelled from the spec: numbering and embedding the chunks of a page; \<open>low\<close>
  is the low-confidence tag of the page.\<close>

fun number_pieces :: "'v chunker_config \<Rightarrow> string \<Rightarrow> nat \<Rightarrow> bool \<Rightarrow> nat \<Rightarrow> piece list \<Rightarrow>
    'v document_chunk list" where
  "number_pieces cfg d pn low n [] = []"
| "number_pieces cfg d pn low n (p # ps) =
     \<lparr>chunk_id = (d, n), document_id = d, ordinal = n, chunk_text = piece_text p,
      structural_tag = piece_tag p, page_number = pn,
      embedding_vector = embed cfg (piece_text p), split = piece_split p,
      low_confidence = low\<rparr>
     # number_pieces cfg d pn low (Suc n) ps"

text \<open>Modelled from the spec: the pages in order, from page number \<open>pn\<close> and ordinal
  \<open>n\<close> on.\<close>

fun ingest_pages :: "'v chunker_config \<Rightarrow> string \<Rightarrow> nat \<Rightarrow> nat \<Rightarrow> page_text list \<Rightarrow>
    'v document_chunk list" where
  "ingest_pages cfg d pn n [] = []"
| "ingest_pages cfg d pn n (p # ps) =
     (let cs = number_pieces cfg d pn (ocr_confidence p < ocr_floor cfg) n
                 (chunk_page cfg (page_content p))
      in cs @ ingest_pages cfg d (Suc pn) (n + length cs) ps)"

text \<open>Modelled from the spec: \<open>ingest\<close>; pages are numbered from 1, ordinals
  from 0.\<close>

definition ingest :: "'v chunker_config \<Rightarrow> string \<Rightarrow> page_text list \<Rightarrow> 'v document_chunk list" where
  "ingest cfg d raw_pages = ingest_pages cfg d 1 0 raw_pages"

text \<open>Modelled from the spec: a recogniser of markers, with headings opened by a hash
  sign, table rows by a bar and numbered clauses by a digit; and a tokenizer that counts
  words.\<close>

definition default_marker :: "string \<Rightarrow> structural_tag option" where
  "default_marker l =
     (case l of
        [] \<Rightarrow> None
      | c # cs \<Rightarrow>
          if c = CHR ''#'' then Some Heading
          else if c = CHR ''|'' then Some TableRow
          else if c \<in> set ''0123456789'' then Some Clause
          else None)"

definition word_count :: "string \<Rightarrow> nat" where
  "word_count s =
     length (filter (list_ex (\<lambda>c. c \<noteq> CHR '' '' \<and> c \<noteq> CHR 0x0A))
               (split_after (\<lambda>c. c = CHR '' '' \<or> c = CHR 0x0A) s))"

text \<open>Modelled from the spec: the scenario of section 8, a page of three clauses of
  which the second exceeds the budget of seven words, followed by a page without
  structure that the OCR read with low confidence.\<close>

definition demo_chunker :: "rat list chunker_config" where
  "demo_chunker = \<lparr>max_tokens = 7, count_tokens = word_count, marker = default_marker,
     embed = (\<lambda>s. [of_nat (length s), 1]), ocr_floor = 1 / 2\<rparr>"

definition demo_pages :: "page_text list" where
  "demo_pages =
     [\<lparr>page_content = ''1. The vendor sells.'' @ [CHR 0x0A]
          @ ''2. The buyer pays the price. The buyer pays on time. The end.'' @ [CHR 0x0A]
          @ ''3. Time is essential.'' @ [CHR 0x0A],
        ocr_confidence = 9 / 10\<rparr>,
      \<lparr>page_content = ''no structure here'', ocr_confidence = 1 / 10\<rparr>]"

section \<open>Retrieval and citation engine\<close>

text \<open>
  Modelled from the spec: the retrieval engine (\<open>services/documents/rag.py\<close>) is not
  among the sources. Everything in this section follows sections 4.3 and 7 of the
  specification. The collaborators (the embedding of the question, the language model,
  the reading of the page numbers it cites, the confidence estimate) are fields of the
  configuration.
\<close>

text \<open>Modelled from the spec: a citation, an answer, and the error that flags an
  answer without citation; the error carries the rejected text.\<close>

record citation =
  cited_chunk :: "string \<times> nat"
  cited_page :: nat

record answer =
  answer_text :: string
  citations :: "citation list"
  answer_confidence :: rat

datatype query_error = AmbiguousRetrieval string

text \<open>Modelled from the spec: the sentinel.\<close>

definition NOT_FOUND :: string where
  "NOT_FOUND = ''NOT_FOUND''"

text \<open>Modelled from the spec: the configuration of the engine.\<close>

record retrieval_config =
  top_k :: nat
  embed_question :: "string \<Rightarrow> rat list"
  complete :: "string \<Rightarrow> rat list document_chunk list \<Rightarrow> string"
  cited_pages :: "string \<Rightarrow> nat list"
  estimate_confidence :: "string \<Rightarrow> rat list document_chunk list \<Rightarrow> rat"

text \<open>Modelled from the spec: vector similarity, as the inner product.\<close>

definition similarity :: "rat list \<Rightarrow> rat list \<Rightarrow> rat" where
  "similarity u v = sum_list (map2 (*) u v)"

text \<open>Modelled from the spec: the top-K chunks by similarity to the question.\<close>

definition retrieve ::
  "retrieval_config \<Rightarrow> rat list document_chunk list \<Rightarrow> string \<Rightarrow> rat list document_chunk list" where
  "retrieve cfg chunks question =
     take (top_k cfg)
       (sort_key (\<lambda>c. - similarity (embed_question cfg question) (embedding_vector c)) chunks)"

text \<open>Modelled from the spec: the citations of an answer, the retrieved chunks whose
  page the answer cites.\<close>

definition cite ::
  "retrieval_config \<Rightarrow> string \<Rightarrow> rat list document_chunk list \<Rightarrow> citation list" where
  "cite cfg txt retrieved =
     map (\<lambda>c. \<lparr>cited_chunk = chunk_id c, cited_page = page_number c\<rparr>)
       (filter (\<lambda>c. page_number c \<in> set (cited_pages cfg txt)) retrieved)"

text \<open>Modelled from the spec: \<open>query\<close> against the chunks of one document. The
  sentinel is passed on without citations; any other answer without a citation, when
  chunks were retrieved, is rejected as \<open>AmbiguousRetrieval\<close>.\<close>

definition query ::
  "retrieval_config \<Rightarrow> rat list document_chunk list \<Rightarrow> string \<Rightarrow> string \<Rightarrow> query_error + answer" where
  "query cfg chunk_set did question =
     (let retrieved = retrieve cfg (filter (\<lambda>c. document_id c = did) chunk_set) question;
          txt = complete cfg question retrieved;
          cits = cite cfg txt retrieved
      in if txt = NOT_FOUND
         then Inr \<lparr>answer_text = NOT_FOUND, citations = [], answer_confidence = 0\<rparr>
         else if retrieved \<noteq> [] \<and> cits = []
         then Inl (AmbiguousRetrieval txt)
         else Inr \<lparr>answer_text = txt, citations = cits,
                   answer_confidence = estimate_confidence cfg txt retrieved\<rparr>)"

text \<open>Modelled from the spec: the chunks of the demonstration document, a language
  model that answers without citing, and one that cites page 1.\<close>

definition demo_chunk_set :: "rat list document_chunk list" where
  "demo_chunk_set = ingest demo_chunker ''contract'' demo_pages"

definition uncited_llm :: retrieval_config where
  "uncited_llm = \<lparr>top_k = 3, embed_question = (\<lambda>q. [1, 0]),
     complete = (\<lambda>q cs. ''The vendor sells.''), cited_pages = (\<lambda>t. []),
     estimate_confidence = (\<lambda>t cs. 1 / 2)\<rparr>"

definition citing_llm :: retrieval_config where
  "citing_llm = \<lparr>top_k = 3, embed_question = (\<lambda>q. [1, 0]),
     complete = (\<lambda>q cs. ''The vendor sells [p. 1].''), cited_pages = (\<lambda>t. [1]),
     estimate_confidence = (\<lambda>t cs. 9 / 10)\<rparr>"


section \<open>Properties of the risk scoring aggregator\<close>

subsection \<open>Rounding to a double\<close>

lemma round_half_even_bounds:
  "of_int (round_half_even x) - 1 / 2 \<le> x \<and> x \<le> of_int (round_half_even x) + 1 / 2"
  unfolding round_half_even_def Let_def by (auto; linarith)

lemma round_half_even_of_int: "round_half_even (of_int n) = n"
  unfolding round_half_even_def Let_def by simp

lemma round_half_even_mono:
  assumes "x \<le> y"
  shows "round_half_even x \<le> round_half_even y"
proof (rule ccontr)
  assume "\<not> ?thesis"
  then have lt: "round_half_even y + 1 \<le> round_half_even x" by simp
  then have "(of_int (round_half_even y) :: rat) + 1 \<le> of_int (round_half_even x)"
    by (metis of_int_1 of_int_add of_int_le_iff)
  with round_half_even_bounds[of x] round_half_even_bounds[of y] assms have "x = y" by linarith
  with lt show False by simp
qed

text \<open>The exponent brackets its argument between two powers of two.\<close>

lemma binary_exponent_ge1:
  assumes "1 \<le> x"
  shows "power_int 2 (binary_exponent x) \<le> x \<and> x < power_int 2 (binary_exponent x + 1)"
proof -
  let ?m = "\<lfloor>x\<rfloor>"
  have m: "0 < ?m" using assms by simp
  have b1: "1 \<le> bitlen ?m" using m bitlen_eq_zero_iff[of ?m] bitlen_nonneg[of ?m] by linarith
  from bitlen_bounds[OF m] have lo: "2 ^ nat (bitlen ?m - 1) \<le> ?m" and hi: "?m < 2 ^ nat (bitlen ?m)"
    by simp_all
  have e: "binary_exponent x = bitlen ?m - 1" using assms by (simp add: binary_exponent_def)
  have "(power_int 2 (bitlen ?m - 1) :: rat) = of_int (2 ^ nat (bitlen ?m - 1))"
    using b1 by (simp add: power_int_nonneg_exp)
  also have "\<dots> \<le> of_int ?m" using lo by (simp only: of_int_le_iff)
  also have "\<dots> \<le> x" by simp
  finally have L: "power_int 2 (binary_exponent x) \<le> x" unfolding e .
  have "?m + 1 \<le> 2 ^ nat (bitlen ?m)" using hi by simp
  then have "(of_int (?m + 1) :: rat) \<le> of_int (2 ^ nat (bitlen ?m))" by (simp only: of_int_le_iff)
  moreover have "x < of_int (?m + 1)" by simp linarith
  moreover have "(power_int 2 (bitlen ?m - 1 + 1) :: rat) = of_int (2 ^ nat (bitlen ?m))"
    using b1 by (simp add: power_int_nonneg_exp)
  ultimately have U: "x < power_int 2 (binary_exponent x + 1)" unfolding e by linarith
  from L U show ?thesis ..
qed

lemma power_int_neg_succ:
  assumes "1 \<le> (n::int)"
  shows "(power_int 2 (- n + 1) :: rat) = 1 / 2 ^ nat (n - 1)"
proof -
  have e: "- n + 1 = - (n - 1)" by simp
  have p: "(power_int 2 (n - 1) :: rat) = 2 ^ nat (n - 1)"
    using assms by (intro power_int_nonneg_exp) simp
  show ?thesis unfolding e power_int_minus_divide p ..
qed

lemma binary_exponent_lt1:
  assumes "0 < x" and "x < 1"
  shows "power_int 2 (binary_exponent x) \<le> x \<and> x < power_int 2 (binary_exponent x + 1)"
proof -
  let ?b = "1 / x"
  let ?k = "\<lceil>?b\<rceil> - 1"
  let ?n = "bitlen ?k"
  have b: "1 < ?b" using assms by simp
  then have k: "0 < ?k" by linarith
  have n1: "1 \<le> ?n" using k bitlen_eq_zero_iff[of ?k] bitlen_nonneg[of ?k] by linarith
  from bitlen_bounds[OF k] have lo: "2 ^ nat (?n - 1) \<le> ?k" and hi: "?k < 2 ^ nat ?n"
    by simp_all
  have e: "binary_exponent x = - ?n" using assms by (simp add: binary_exponent_def)
  have kb: "of_int ?k < ?b" by linarith
  have bk: "?b \<le> of_int \<lceil>?b\<rceil>" by (rule le_of_int_ceiling)
  have "\<lceil>?b\<rceil> \<le> 2 ^ nat ?n" using hi by simp
  then have "(of_int \<lceil>?b\<rceil> :: rat) \<le> of_int (2 ^ nat ?n)" by (simp only: of_int_le_iff)
  then have "(of_int \<lceil>?b\<rceil> :: rat) \<le> 2 ^ nat ?n" by simp
  with bk have "?b \<le> 2 ^ nat ?n" by linarith
  then have "1 / (2 ^ nat ?n) \<le> x" using assms(1)
    by (simp add: field_simps)
  moreover have "(power_int 2 (- ?n) :: rat) = 1 / 2 ^ nat ?n"
    using n1 by (simp add: power_int_minus_divide power_int_nonneg_exp)
  ultimately have L: "power_int 2 (binary_exponent x) \<le> x" unfolding e by simp
  have "(of_int (2 ^ nat (?n - 1)) :: rat) \<le> of_int ?k" using lo by (simp only: of_int_le_iff)
  then have "(2 ^ nat (?n - 1) :: rat) \<le> of_int ?k" by simp
  with kb have "2 ^ nat (?n - 1) < ?b" by linarith
  then have "x < 1 / 2 ^ nat (?n - 1)" using assms(1) by (simp add: field_simps)
  moreover have "(power_int 2 (- ?n + 1) :: rat) = 1 / 2 ^ nat (?n - 1)"
    using n1 by (rule power_int_neg_succ)
  ultimately have U: "x < power_int 2 (binary_exponent x + 1)" unfolding e by simp
  from L U show ?thesis ..
qed

lemma binary_exponent_bounds:
  assumes "0 < x"
  shows "power_int 2 (binary_exponent x) \<le> x \<and> x < power_int 2 (binary_exponent x + 1)"
  using assms binary_exponent_ge1[of x] binary_exponent_lt1[of x] by (cases "1 \<le> x") auto

lemma binary_exponent_mono:
  assumes "0 < x" and "x \<le> y"
  shows "binary_exponent x \<le> binary_exponent y"
proof (rule ccontr)
  assume "\<not> ?thesis"
  then have "binary_exponent y + 1 \<le> binary_exponent x" by simp
  then have "(power_int 2 (binary_exponent y + 1) :: rat) \<le> power_int 2 (binary_exponent x)"
    by (intro power_int_increasing) simp_all
  moreover have "y < power_int 2 (binary_exponent y + 1)"
    using binary_exponent_bounds[of y] assms by simp
  moreover have "power_int 2 (binary_exponent x) \<le> x"
    using binary_exponent_bounds[OF assms(1)] by simp
  ultimately show False using assms(2) by linarith
qed

lemma pow2_power_int: "pow2 e = power_int 2 e"
  by (simp add: pow2_def power_int_def inverse_eq_divide power_one_over)

lemma ulp_pos: "0 < ulp x"
  by (simp add: ulp_def pow2_power_int)

lemma fl_unfold: "fl x = (if x = 0 then 0 else of_int (round_half_even (x / ulp x)) * ulp x)"
  by (simp add: fl_def Let_def)

lemma ulp_scale:
  "(power_int 2 (e + 1) :: rat) = of_int (2 ^ 53) * power_int 2 (e - 52)"
  "(power_int 2 e :: rat) = of_int (2 ^ 52) * power_int 2 (e - 52)"
proof -
  have "(power_int 2 (53 + (e - 52)) :: rat) = power_int 2 53 * power_int 2 (e - 52)"
    by (rule power_int_add) simp
  moreover have "53 + (e - 52) = e + 1" by simp
  ultimately show "(power_int 2 (e + 1) :: rat) = of_int (2 ^ 53) * power_int 2 (e - 52)"
    by simp
  have "(power_int 2 (52 + (e - 52)) :: rat) = power_int 2 52 * power_int 2 (e - 52)"
    by (rule power_int_add) simp
  moreover have "52 + (e - 52) = e" by simp
  ultimately show "(power_int 2 e :: rat) = of_int (2 ^ 52) * power_int 2 (e - 52)"
    by simp
qed

text \<open>A positive number rounds into the binade it lies in, both ends included.\<close>

lemma fl_upper:
  assumes "0 < x"
  shows "fl x \<le> power_int 2 (max (binary_exponent x) (- 1022) + 1)"
proof -
  let ?E = "max (binary_exponent x) (- 1022)"
  let ?u = "power_int 2 (?E - 52) :: rat"
  have u: "ulp x = ?u" using assms by (simp add: ulp_def pow2_power_int)
  have up: "0 < ?u" by simp
  have "x < power_int 2 (binary_exponent x + 1)" using binary_exponent_bounds[OF assms] by simp
  also have "\<dots> \<le> power_int 2 (?E + 1)" by (intro power_int_increasing) simp_all
  also have "\<dots> = of_int (2 ^ 53) * ?u" by (rule ulp_scale(1))
  finally have "x / ?u \<le> of_int (2 ^ 53)" using up by (simp add: pos_divide_le_eq)
  then have "round_half_even (x / ?u) \<le> 2 ^ 53"
    using round_half_even_mono[of "x / ?u" "of_int (2 ^ 53)"] round_half_even_of_int[of "2 ^ 53"]
    by simp
  then have "(of_int (round_half_even (x / ?u)) :: rat) \<le> of_int (2 ^ 53)"
    by (simp only: of_int_le_iff)
  then have "of_int (round_half_even (x / ?u)) * ?u \<le> of_int (2 ^ 53) * ?u"
    using up by (intro mult_right_mono) simp_all
  then show ?thesis using assms u ulp_scale(1)[of ?E] by (simp add: fl_unfold)
qed

lemma fl_lower:
  assumes "0 < x" and "- 1022 \<le> binary_exponent x"
  shows "power_int 2 (binary_exponent x) \<le> fl x"
proof -
  let ?E = "binary_exponent x"
  let ?u = "power_int 2 (?E - 52) :: rat"
  have u: "ulp x = ?u" using assms by (simp add: ulp_def pow2_power_int max_def)
  have up: "0 < ?u" by simp
  have "of_int (2 ^ 52) * ?u = power_int 2 ?E" by (rule ulp_scale(2)[symmetric])
  also have "\<dots> \<le> x" using binary_exponent_bounds[OF assms(1)] by simp
  finally have "of_int (2 ^ 52) \<le> x / ?u" using up by (simp add: pos_le_divide_eq)
  then have "2 ^ 52 \<le> round_half_even (x / ?u)"
    using round_half_even_mono[of "of_int (2 ^ 52)" "x / ?u"] round_half_even_of_int[of "2 ^ 52"]
    by simp
  then have "(of_int (2 ^ 52) :: rat) \<le> of_int (round_half_even (x / ?u))"
    by (simp only: of_int_le_iff)
  then have "of_int (2 ^ 52) * ?u \<le> of_int (round_half_even (x / ?u)) * ?u"
    using up by (intro mult_right_mono) simp_all
  then show ?thesis using assms u ulp_scale(2)[of ?E] by (simp add: fl_unfold)
qed

lemma fl_nonneg: "0 \<le> x \<Longrightarrow> 0 \<le> fl x"
proof -
  assume x: "0 \<le> x"
  have "0 \<le> x / ulp x" using x ulp_pos[of x] by simp
  then have "0 \<le> round_half_even (x / ulp x)"
    using round_half_even_mono[of 0 "x / ulp x"] round_half_even_of_int[of 0] by simp
  then show ?thesis using ulp_pos[of x] by (simp add: fl_unfold)
qed

lemma fl_nonpos: "x \<le> 0 \<Longrightarrow> fl x \<le> 0"
proof -
  assume x: "x \<le> 0"
  have "x / ulp x \<le> 0" using x ulp_pos[of x] by (simp add: divide_le_0_iff)
  then have "round_half_even (x / ulp x) \<le> 0"
    using round_half_even_mono[of "x / ulp x" 0] round_half_even_of_int[of 0] by simp
  then show ?thesis using ulp_pos[of x] by (simp add: fl_unfold mult_le_0_iff)
qed

lemma fl_mono_pos:
  assumes "0 < x" and "x \<le> y"
  shows "fl x \<le> fl y"
proof -
  have y: "0 < y" using assms by simp
  let ?Ex = "max (binary_exponent x) (- 1022)"
  let ?Ey = "max (binary_exponent y) (- 1022)"
  have E: "?Ex \<le> ?Ey" using binary_exponent_mono[OF assms] by simp
  show ?thesis
  proof (cases "?Ex = ?Ey")
    case True
    then have u: "ulp x = ulp y" using assms y by (simp add: ulp_def)
    have "x / ulp y \<le> y / ulp y" using assms(2) ulp_pos[of y] by (simp add: divide_right_mono)
    then have "round_half_even (x / ulp y) \<le> round_half_even (y / ulp y)"
      by (rule round_half_even_mono)
    then have "(of_int (round_half_even (x / ulp y)) :: rat) \<le> of_int (round_half_even (y / ulp y))"
      by (simp only: of_int_le_iff)
    then have "of_int (round_half_even (x / ulp y)) * ulp y \<le> of_int (round_half_even (y / ulp y)) * ulp y"
      using ulp_pos[of y] by (intro mult_right_mono) simp_all
    then show ?thesis using assms(1) y u by (simp add: fl_unfold)
  next
    case False
    with E have lt: "?Ex + 1 \<le> ?Ey" by simp
    then have ey: "?Ey = binary_exponent y" and ny: "- 1022 \<le> binary_exponent y"
      by (simp_all add: max_def split: if_splits)
    have "fl x \<le> power_int 2 (?Ex + 1)" by (rule fl_upper[OF assms(1)])
    also have "\<dots> \<le> power_int 2 ?Ey" using lt by (intro power_int_increasing) simp_all
    also have "\<dots> = power_int 2 (binary_exponent y)" using ey by simp
    also have "\<dots> \<le> fl y" by (rule fl_lower[OF y ny])
    finally show ?thesis .
  qed
qed

text \<open>Rounding is monotone; stated towards a number that is not negative, which is
  all the scorer needs.\<close>

lemma fl_mono:
  assumes "x \<le> y" and "0 \<le> y"
  shows "fl x \<le> fl y"
proof (cases "0 < x")
  case True
  then show ?thesis using assms(1) by (rule fl_mono_pos)
next
  case False
  then have "fl x \<le> 0" by (intro fl_nonpos) simp
  with fl_nonneg[OF assms(2)] show ?thesis by simp
qed

lemma py_round1_mono:
  assumes "x \<le> y" and "0 \<le> y"
  shows "py_round1 x \<le> py_round1 y"
proof -
  have k: "round_half_even (x * 10) \<le> round_half_even (y * 10)"
    using assms(1) by (intro round_half_even_mono) simp
  have "0 \<le> round_half_even (y * 10)"
    using round_half_even_mono[of 0 "y * 10"] round_half_even_of_int[of 0] assms(2) by simp
  then have "(0::rat) \<le> of_int (round_half_even (y * 10)) / 10" by simp
  moreover have "(of_int (round_half_even (x * 10)) :: rat) / 10
      \<le> of_int (round_half_even (y * 10)) / 10"
    using k by (simp add: divide_right_mono)
  ultimately show ?thesis unfolding py_round1_def by (intro fl_mono)
qed

lemma py_round1_nonneg: "0 \<le> x \<Longrightarrow> 0 \<le> py_round1 x"
proof -
  assume "0 \<le> x"
  then have "0 \<le> round_half_even (x * 10)"
    using round_half_even_mono[of 0 "x * 10"] round_half_even_of_int[of 0] by simp
  then have "(0::rat) \<le> of_int (round_half_even (x * 10)) / 10" by simp
  then show ?thesis unfolding py_round1_def by (rule fl_nonneg)
qed

text \<open>The band limits, 50 and 100 are doubles with at most one decimal: rounding
  leaves them as they are.\<close>

lemma py_round1_fixed:
  "py_round1 20 = 20" "py_round1 40 = 40" "py_round1 60 = 60" "py_round1 80 = 80"
  "py_round1 100 = 100" "py_round1 50 = 50"
  by code_simp+

lemma fl_fixed: "fl 1 = 1" "fl 100 = 100"
  by code_simp+

text \<open>The code's rounding on doubles, where it differs from rounding the decimal:
  \<open>round(1.0 * 0.15, 1)\<close> is 0.1, and \<open>13.2 + 3.4 + 1.4\<close> is below 18.\<close>

lemma round_of_double_product: "py_round1 (fmul 1 (fl (15 / 100))) = fl (1 / 10)"
  by code_simp

lemma sum_of_doubles_below: "fsum [fl (132 / 10), fl (34 / 10), fl (14 / 10)] < 18"
  by code_simp

subsection \<open>Sums of floats\<close>

lemma foldl_fadd_mono:
  assumes "\<forall>z\<in>set zs. f z \<le> g z \<and> 0 \<le> g z" and "x \<le> y" and "0 \<le> y"
  shows "foldl fadd x (map f zs) \<le> foldl fadd y (map g zs) \<and> 0 \<le> foldl fadd y (map g zs)"
  using assms
proof (induction zs arbitrary: x y)
  case Nil
  then show ?case by simp
next
  case (Cons z zs)
  from Cons.prems have z: "f z \<le> g z" "0 \<le> g z" by simp_all
  have 1: "fadd x (f z) \<le> fadd y (g z)"
    unfolding fadd_def using z Cons.prems(2,3) by (intro fl_mono) simp_all
  have 2: "0 \<le> fadd y (g z)"
    unfolding fadd_def using z Cons.prems(3) by (intro fl_nonneg) simp
  have 3: "\<forall>z\<in>set zs. f z \<le> g z \<and> 0 \<le> g z" using Cons.prems(1) by simp
  show ?case using Cons.IH[OF 3 1 2] by simp
qed

lemma fsum_mono:
  assumes "\<forall>z\<in>set zs. f z \<le> g z \<and> 0 \<le> g z"
  shows "fsum (map f zs) \<le> fsum (map g zs) \<and> 0 \<le> fsum (map g zs)"
  unfolding fsum_def using foldl_fadd_mono[OF assms, of 0 0] by simp

subsection \<open>The total and the normaliser, from the inputs\<close>

lemma weighted_scores_map:
  "map fd_weighted_score (factor_details gfs a c fs) =
   map (\<lambda>(f, factor_weight). fmul (gfs a c f) factor_weight) fs"
  by (induction fs) (auto simp: factor_details_def)

lemma contribution_formula:
  "cr_weighted_contribution (category_entry gfs a c cfg) =
   py_round1 (fmul (category_score gfs a c cfg) (cfg_weight cfg))"
  by (simp add: category_entry_def Let_def category_score_def weighted_scores_map)

lemma contributions_map:
  "map (\<lambda>(c, cat). cr_weighted_contribution cat) (category_scores rw gfs a) =
   map (\<lambda>(c, cfg). py_round1 (fmul (category_score gfs a c cfg) (cfg_weight cfg)))
     (applicable rw a)"
  by (induction rw) (auto simp: category_scores_def applicable_def contribution_formula)

lemma total_score_applicable:
  "total_score (category_scores rw gfs a) =
   fsum (map (\<lambda>(c, cfg). py_round1 (fmul (category_score gfs a c cfg) (cfg_weight cfg)))
           (applicable rw a))"
  by (simp add: total_score_def contributions_map)

lemma max_possible_applicable:
  "max_possible rw a = fsum (map (\<lambda>(c, cfg). fmul (cfg_weight cfg) 100) (applicable rw a))"
  by (simp add: max_possible_def applicable_def)

lemma normalized_score_formula:
  assumes "0 < max_possible rw a"
  shows "normalized_score rw gfs a =
     fmul (fdiv (fsum (map (\<lambda>(c, cfg). py_round1 (fmul (category_score gfs a c cfg) (cfg_weight cfg)))
                         (applicable rw a)))
                (fsum (map (\<lambda>(c, cfg). fmul (cfg_weight cfg) 100) (applicable rw a)))) 100"
  using assms
  by (simp add: normalized_score_def total_score_applicable max_possible_applicable[symmetric])

lemma all_factors_inputs:
  "all_factors (category_scores rw gfs a) =
   concat (map (\<lambda>(c, cfg).
                  map (\<lambda>(f, w). \<lparr>tr_category = c, tr_factor = f, tr_score = gfs a c f,
                                  tr_impact = fmul (gfs a c f) w\<rparr>) (cfg_factors cfg))
             (applicable rw a))"
proof -
  have d: "map (\<lambda>fd. \<lparr>tr_category = c, tr_factor = fd_factor fd, tr_score = fd_raw_score fd,
                      tr_impact = fd_weighted_score fd\<rparr>) (factor_details gfs a c fs) =
           map (\<lambda>(f, w). \<lparr>tr_category = c, tr_factor = f, tr_score = gfs a c f,
                          tr_impact = fmul (gfs a c f) w\<rparr>) fs" for c fs
    by (induction fs) (auto simp: factor_details_def)
  show ?thesis
    unfolding all_factors_def category_scores_def applicable_def
    by (induction rw) (auto simp: category_entry_def Let_def d)
qed

subsection \<open>The score stays within 0 to 100\<close>

lemma category_score_range:
  assumes "weights_ok cfg" and "\<forall>c f. 0 \<le> gfs a c f \<and> gfs a c f \<le> 100"
  shows "0 \<le> category_score gfs a c cfg \<and> category_score gfs a c cfg \<le> 100"
proof -
  let ?F = "\<lambda>(f, w). fmul (gfs a c f) w" and ?G = "\<lambda>(f, w). fmul 100 w"
  from assms(1) have pos: "\<forall>(f, w)\<in>set (cfg_factors cfg). 0 \<le> w"
    and le: "fsum (map ?G (cfg_factors cfg)) \<le> 100"
    by (simp_all add: weights_ok_def list_all_iff)
  have FG: "\<forall>z\<in>set (cfg_factors cfg). ?F z \<le> ?G z \<and> 0 \<le> ?G z"
  proof
    fix z assume z: "z \<in> set (cfg_factors cfg)"
    obtain f w where zz: "z = (f, w)" by (cases z)
    with pos z have w: "0 \<le> w" by auto
    have s: "0 \<le> gfs a c f" "gfs a c f \<le> 100" using assms(2) by simp_all
    have "fl (gfs a c f * w) \<le> fl (100 * w)"
      using s w by (intro fl_mono) (simp_all add: mult_right_mono)
    moreover have "0 \<le> fl (100 * w)" using w by (intro fl_nonneg) simp
    ultimately show "?F z \<le> ?G z \<and> 0 \<le> ?G z" using zz by (simp add: fmul_def)
  qed
  have FF: "\<forall>z\<in>set (cfg_factors cfg). ?F z \<le> ?F z \<and> 0 \<le> ?F z"
  proof
    fix z assume z: "z \<in> set (cfg_factors cfg)"
    obtain f w where zz: "z = (f, w)" by (cases z)
    with pos z have w: "0 \<le> w" by auto
    have "0 \<le> fl (gfs a c f * w)" using assms(2) w by (intro fl_nonneg) simp
    then show "?F z \<le> ?F z \<and> 0 \<le> ?F z" using zz by (simp add: fmul_def)
  qed
  from fsum_mono[OF FG] le fsum_mono[OF FF] show ?thesis
    unfolding category_score_def by linarith
qed

lemma contribution_range:
  assumes "weights_ok cfg" and "\<forall>c f. 0 \<le> gfs a c f \<and> gfs a c f \<le> 100"
  shows "0 \<le> py_round1 (fmul (category_score gfs a c cfg) (cfg_weight cfg)) \<and>
         py_round1 (fmul (category_score gfs a c cfg) (cfg_weight cfg)) \<le> fmul (cfg_weight cfg) 100 \<and>
         0 \<le> fmul (cfg_weight cfg) 100"
proof -
  from assms(1) have w: "0 \<le> cfg_weight cfg"
    and fixed: "py_round1 (fmul (cfg_weight cfg) 100) = fmul (cfg_weight cfg) 100"
    by (simp_all add: weights_ok_def)
  have r: "0 \<le> category_score gfs a c cfg" "category_score gfs a c cfg \<le> 100"
    using category_score_range[where gfs=gfs and a=a and c=c, OF assms] by simp_all
  have m: "0 \<le> fmul (cfg_weight cfg) 100" unfolding fmul_def using w by (intro fl_nonneg) simp
  have lo: "0 \<le> fmul (category_score gfs a c cfg) (cfg_weight cfg)"
    unfolding fmul_def using r(1) w by (intro fl_nonneg) simp
  have "fl (category_score gfs a c cfg * cfg_weight cfg) \<le> fl (cfg_weight cfg * 100)"
    using r(2) w by (intro fl_mono) (simp_all add: mult.commute mult_left_mono)
  then have hi: "fmul (category_score gfs a c cfg) (cfg_weight cfg) \<le> fmul (cfg_weight cfg) 100"
    by (simp add: fmul_def)
  from py_round1_nonneg[OF lo] py_round1_mono[OF hi m] fixed m show ?thesis by simp
qed

lemma total_range:
  assumes "list_all (\<lambda>(c, cfg). weights_ok cfg) xs"
    and "\<forall>c f. 0 \<le> gfs a c f \<and> gfs a c f \<le> 100"
  shows "0 \<le> fsum (map (\<lambda>(c, cfg). py_round1 (fmul (category_score gfs a c cfg) (cfg_weight cfg))) xs) \<and>
         fsum (map (\<lambda>(c, cfg). py_round1 (fmul (category_score gfs a c cfg) (cfg_weight cfg))) xs)
           \<le> fsum (map (\<lambda>(c, cfg). fmul (cfg_weight cfg) 100) xs)"
proof -
  let ?C = "\<lambda>(c, cfg). py_round1 (fmul (category_score gfs a c cfg) (cfg_weight cfg))"
  let ?M = "\<lambda>(c, cfg). fmul (cfg_weight cfg) 100"
  have CM: "\<forall>z\<in>set xs. ?C z \<le> ?M z \<and> 0 \<le> ?M z"
  proof
    fix z assume z: "z \<in> set xs"
    obtain c cfg where zz: "z = (c, cfg)" by (cases z)
    with assms(1) z have ok: "weights_ok cfg" by (auto simp: list_all_iff)
    from contribution_range[where gfs=gfs and a=a and c=c, OF ok assms(2)] zz
    show "?C z \<le> ?M z \<and> 0 \<le> ?M z" by simp
  qed
  have CC: "\<forall>z\<in>set xs. ?C z \<le> ?C z \<and> 0 \<le> ?C z"
  proof
    fix z assume z: "z \<in> set xs"
    obtain c cfg where zz: "z = (c, cfg)" by (cases z)
    with assms(1) z have ok: "weights_ok cfg" by (auto simp: list_all_iff)
    from contribution_range[where gfs=gfs and a=a and c=c, OF ok assms(2)] zz
    show "?C z \<le> ?C z \<and> 0 \<le> ?C z" by simp
  qed
  from fsum_mono[OF CM] fsum_mono[OF CC] show ?thesis by simp
qed

lemma applicable_ok:
  "list_all (\<lambda>(c, cfg). weights_ok cfg) rw \<Longrightarrow>
   list_all (\<lambda>(c, cfg). weights_ok cfg) (applicable rw a)"
  by (auto simp: applicable_def list_all_iff)

lemma normalized_range:
  assumes "list_all (\<lambda>(c, cfg). weights_ok cfg) rw"
    and "\<forall>c f. 0 \<le> gfs a c f \<and> gfs a c f \<le> 100"
  shows "0 \<le> normalized_score rw gfs a \<and> normalized_score rw gfs a \<le> 100"
proof (cases "0 < max_possible rw a")
  case True
  let ?T = "fsum (map (\<lambda>(c, cfg). py_round1 (fmul (category_score gfs a c cfg) (cfg_weight cfg)))
                    (applicable rw a))"
  let ?M = "fsum (map (\<lambda>(c, cfg). fmul (cfg_weight cfg) 100) (applicable rw a))"
  have M: "0 < ?M" using True by (simp add: max_possible_applicable)
  have t: "0 \<le> ?T" "?T \<le> ?M"
    using total_range[where gfs=gfs and a=a, OF applicable_ok[OF assms(1), of a] assms(2)]
    by simp_all
  have q0: "0 \<le> ?T / ?M" using t(1) M by simp
  have q1: "?T / ?M \<le> 1" using t(2) M by simp
  have f0: "0 \<le> fdiv ?T ?M" unfolding fdiv_def using q0 by (rule fl_nonneg)
  have "fl (?T / ?M) \<le> fl 1" using q1 by (intro fl_mono) simp_all
  then have f1: "fdiv ?T ?M \<le> 1" by (simp add: fdiv_def fl_fixed)
  have "0 \<le> fl (fdiv ?T ?M * 100)" using f0 by (intro fl_nonneg) simp
  then have n0: "0 \<le> fmul (fdiv ?T ?M) 100" by (simp add: fmul_def)
  have "fl (fdiv ?T ?M * 100) \<le> fl 100" using f1 by (intro fl_mono) simp_all
  then have n1: "fmul (fdiv ?T ?M) 100 \<le> 100" by (simp add: fmul_def fl_fixed)
  from n0 n1 show ?thesis unfolding normalized_score_formula[OF True] by simp
next
  case False
  then show ?thesis by (simp add: normalized_score_def)
qed

lemma overall_range:
  assumes "list_all (\<lambda>(c, cfg). weights_ok cfg) rw"
    and "\<forall>c f. 0 \<le> gfs a c f \<and> gfs a c f \<le> 100"
  shows "0 \<le> py_round1 (normalized_score rw gfs a) \<and> py_round1 (normalized_score rw gfs a) \<le> 100"
proof -
  have n: "0 \<le> normalized_score rw gfs a" "normalized_score rw gfs a \<le> 100"
    using normalized_range[where gfs=gfs and a=a, OF assms] by simp_all
  have "py_round1 (normalized_score rw gfs a) \<le> py_round1 100"
    using n(2) by (intro py_round1_mono) simp_all
  with py_round1_nonneg[OF n(1)] show ?thesis by (simp add: py_round1_fixed)
qed

subsection \<open>The class table on a house\<close>

text \<open>The arithmetic of the scorer on the class table, written out term by term for a
  house (the strata category does not apply) and evaluated.\<close>

lemma risk_weights_ok: "list_all (\<lambda>(c, cfg). weights_ok cfg) RISK_WEIGHTS"
proof -
  have "list_all (\<lambda>(c, cfg). weights_ok cfg) RISK_WEIGHTS \<longleftrightarrow>
        0 \<le> fl (25 / 100) \<and>
        py_round1 (fmul (fl (25 / 100)) 100) = fmul (fl (25 / 100)) 100 \<and>
        list_all (\<lambda>w. 0 \<le> w) [fl (20 / 100), fl (15 / 100), fl (15 / 100),
          fl (20 / 100), fl (15 / 100), fl (15 / 100)] \<and>
        fsum [fmul 100 (fl (20 / 100)), fmul 100 (fl (15 / 100)), fmul 100 (fl (15 / 100)),
          fmul 100 (fl (20 / 100)), fmul 100 (fl (15 / 100)),
          fmul 100 (fl (15 / 100))] \<le> 100 \<and>
        0 \<le> fl (15 / 100) \<and>
        py_round1 (fmul (fl (15 / 100)) 100) = fmul (fl (15 / 100)) 100 \<and>
        list_all (\<lambda>w. 0 \<le> w) [fl (30 / 100), fl (30 / 100), fl (20 / 100),
          fl (20 / 100)] \<and>
        fsum [fmul 100 (fl (30 / 100)), fmul 100 (fl (30 / 100)), fmul 100 (fl (20 / 100)),
          fmul 100 (fl (20 / 100))] \<le> 100 \<and>
        0 \<le> fl (15 / 100) \<and>
        py_round1 (fmul (fl (15 / 100)) 100) = fmul (fl (15 / 100)) 100 \<and>
        list_all (\<lambda>w. 0 \<le> w) [fl (25 / 100), fl (25 / 100), fl (30 / 100),
          fl (20 / 100)] \<and>
        fsum [fmul 100 (fl (25 / 100)), fmul 100 (fl (25 / 100)), fmul 100 (fl (30 / 100)),
          fmul 100 (fl (20 / 100))] \<le> 100 \<and>
        0 \<le> fl (15 / 100) \<and>
        py_round1 (fmul (fl (15 / 100)) 100) = fmul (fl (15 / 100)) 100 \<and>
        list_all (\<lambda>w. 0 \<le> w) [fl (35 / 100), fl (20 / 100), fl (15 / 100),
          fl (15 / 100), fl (15 / 100)] \<and>
        fsum [fmul 100 (fl (35 / 100)), fmul 100 (fl (20 / 100)), fmul 100 (fl (15 / 100)),
          fmul 100 (fl (15 / 100)), fmul 100 (fl (15 / 100))] \<le> 100 \<and>
        0 \<le> fl (10 / 100) \<and>
        py_round1 (fmul (fl (10 / 100)) 100) = fmul (fl (10 / 100)) 100 \<and>
        list_all (\<lambda>w. 0 \<le> w) [fl (30 / 100), fl (30 / 100), fl (20 / 100),
          fl (20 / 100)] \<and>
        fsum [fmul 100 (fl (30 / 100)), fmul 100 (fl (30 / 100)), fmul 100 (fl (20 / 100)),
          fmul 100 (fl (20 / 100))] \<le> 100 \<and>
        0 \<le> fl (10 / 100) \<and>
        py_round1 (fmul (fl (10 / 100)) 100) = fmul (fl (10 / 100)) 100 \<and>
        list_all (\<lambda>w. 0 \<le> w) [fl (25 / 100), fl (25 / 100), fl (25 / 100),
          fl (15 / 100), fl (10 / 100)] \<and>
        fsum [fmul 100 (fl (25 / 100)), fmul 100 (fl (25 / 100)), fmul 100 (fl (25 / 100)),
          fmul 100 (fl (15 / 100)), fmul 100 (fl (10 / 100))] \<le> 100 \<and>
        0 \<le> fl (10 / 100) \<and>
        py_round1 (fmul (fl (10 / 100)) 100) = fmul (fl (10 / 100)) 100 \<and>
        list_all (\<lambda>w. 0 \<le> w) [fl (40 / 100), fl (30 / 100), fl (30 / 100)] \<and>
        fsum [fmul 100 (fl (40 / 100)), fmul 100 (fl (30 / 100)),
          fmul 100 (fl (30 / 100))] \<le> 100"
    by (simp add: RISK_WEIGHTS_def weights_ok_def)
  also have "\<dots>" by code_simp
  finally show ?thesis .
qed

lemma max_possible_house: "max_possible RISK_WEIGHTS house = 90"
proof -
  have "max_possible RISK_WEIGHTS house =
        fsum [fmul (fl (25 / 100)) 100, fmul (fl (15 / 100)) 100, fmul (fl (15 / 100)) 100,
          fmul (fl (15 / 100)) 100, fmul (fl (10 / 100)) 100, fmul (fl (10 / 100)) 100]"
    by (simp add: max_possible_def RISK_WEIGHTS_def applies_def house_def)
  also have "\<dots> = 90" by code_simp
  finally show ?thesis .
qed

lemma contributions_edge:
  "map (\<lambda>(c, cfg). py_round1 (fmul (category_score gfs_edge house c cfg) (cfg_weight cfg)))
     (applicable RISK_WEIGHTS house) = [fl (132 / 10), fl (34 / 10), 0, 0, fl (14 / 10), 0]"
proof -
  have "map (\<lambda>(c, cfg). py_round1 (fmul (category_score gfs_edge house c cfg) (cfg_weight cfg)))
          (applicable RISK_WEIGHTS house) =
        [py_round1 (fmul (fsum [fmul (53) (fl (20 / 100)), fmul (53) (fl (15 / 100)),
           fmul (53) (fl (15 / 100)), fmul (53) (fl (20 / 100)), fmul (53) (fl (15 / 100)),
           fmul (53) (fl (15 / 100))]) (fl (25 / 100))),
         py_round1 (fmul (fsum [fmul (23) (fl (30 / 100)), fmul (23) (fl (30 / 100)),
           fmul (23) (fl (20 / 100)), fmul (23) (fl (20 / 100))]) (fl (15 / 100))),
         py_round1 (fmul (fsum [fmul (0) (fl (25 / 100)), fmul (0) (fl (25 / 100)),
           fmul (0) (fl (30 / 100)), fmul (0) (fl (20 / 100))]) (fl (15 / 100))),
         py_round1 (fmul (fsum [fmul (0) (fl (35 / 100)), fmul (0) (fl (20 / 100)),
           fmul (0) (fl (15 / 100)), fmul (0) (fl (15 / 100)),
           fmul (0) (fl (15 / 100))]) (fl (15 / 100))),
         py_round1 (fmul (fsum [fmul (14) (fl (25 / 100)), fmul (14) (fl (25 / 100)),
           fmul (14) (fl (25 / 100)), fmul (14) (fl (15 / 100)),
           fmul (14) (fl (10 / 100))]) (fl (10 / 100))),
         py_round1 (fmul (fsum [fmul (0) (fl (40 / 100)), fmul (0) (fl (30 / 100)),
           fmul (0) (fl (30 / 100))]) (fl (10 / 100)))]"
    by (simp add: applicable_def RISK_WEIGHTS_def applies_def house_def category_score_def
        gfs_edge_def)
  also have "\<dots> = [fl (132 / 10), fl (34 / 10), 0, 0, fl (14 / 10), 0]"
    by code_simp
  finally show ?thesis .
qed

lemma contributions_flat:
  "map (\<lambda>(c, cfg). py_round1 (fmul (category_score gfs_flat house c cfg) (cfg_weight cfg)))
     (applicable RISK_WEIGHTS house) = [0, 0, 0, 0, 0, 0]"
proof -
  have "map (\<lambda>(c, cfg). py_round1 (fmul (category_score gfs_flat house c cfg) (cfg_weight cfg)))
          (applicable RISK_WEIGHTS house) =
        [py_round1 (fmul (fsum [fmul (fl (16 / 100)) (fl (20 / 100)),
           fmul (fl (16 / 100)) (fl (15 / 100)), fmul (fl (16 / 100)) (fl (15 / 100)),
           fmul (fl (16 / 100)) (fl (20 / 100)), fmul (fl (16 / 100)) (fl (15 / 100)),
           fmul (fl (16 / 100)) (fl (15 / 100))]) (fl (25 / 100))),
         py_round1 (fmul (fsum [fmul (fl (16 / 100)) (fl (30 / 100)),
           fmul (fl (16 / 100)) (fl (30 / 100)), fmul (fl (16 / 100)) (fl (20 / 100)),
           fmul (fl (16 / 100)) (fl (20 / 100))]) (fl (15 / 100))),
         py_round1 (fmul (fsum [fmul (fl (16 / 100)) (fl (25 / 100)),
           fmul (fl (16 / 100)) (fl (25 / 100)), fmul (fl (16 / 100)) (fl (30 / 100)),
           fmul (fl (16 / 100)) (fl (20 / 100))]) (fl (15 / 100))),
         py_round1 (fmul (fsum [fmul (fl (16 / 100)) (fl (35 / 100)),
           fmul (fl (16 / 100)) (fl (20 / 100)), fmul (fl (16 / 100)) (fl (15 / 100)),
           fmul (fl (16 / 100)) (fl (15 / 100)),
           fmul (fl (16 / 100)) (fl (15 / 100))]) (fl (15 / 100))),
         py_round1 (fmul (fsum [fmul (fl (16 / 100)) (fl (25 / 100)),
           fmul (fl (16 / 100)) (fl (25 / 100)), fmul (fl (16 / 100)) (fl (25 / 100)),
           fmul (fl (16 / 100)) (fl (15 / 100)),
           fmul (fl (16 / 100)) (fl (10 / 100))]) (fl (10 / 100))),
         py_round1 (fmul (fsum [fmul (fl (16 / 100)) (fl (40 / 100)),
           fmul (fl (16 / 100)) (fl (30 / 100)),
           fmul (fl (16 / 100)) (fl (30 / 100))]) (fl (10 / 100)))]"
    by (simp add: applicable_def RISK_WEIGHTS_def applies_def house_def category_score_def
        gfs_flat_def)
  also have "\<dots> = [0, 0, 0, 0, 0, 0]"
    by code_simp
  finally show ?thesis .
qed

lemma normalized_edge:
  "normalized_score RISK_WEIGHTS gfs_edge house = 5629499534213119 / 281474976710656"
proof -
  have "fmul (fdiv (fsum [fl (132 / 10), fl (34 / 10), 0, 0, fl (14 / 10), 0]) 90) 100 =
        5629499534213119 / 281474976710656"
    by code_simp
  then show ?thesis
    by (simp add: normalized_score_def total_score_applicable contributions_edge
        max_possible_house)
qed

lemma overall_edge: "py_round1 (normalized_score RISK_WEIGHTS gfs_edge house) = 20"
  unfolding normalized_edge by code_simp

lemma normalized_flat: "normalized_score RISK_WEIGHTS gfs_flat house = 0"
proof -
  have "fmul (fdiv (fsum [0, 0, 0, 0, 0, 0]) 90) 100 = 0"
    by code_simp
  then show ?thesis
    by (simp add: normalized_score_def total_score_applicable contributions_flat
        max_possible_house)
qed

lemma spec_overall_flat: "15 / 100 < spec_overall RISK_WEIGHTS gfs_flat house"
  by code_simp

subsection \<open>Overall score\<close>

text \<open>
  Claim C4, as the code has it. With a positive \<open>max_possible\<close>, the overall score is
  the sum of the category contributions over \<open>max_possible\<close>, times 100, where each
  contribution (category score times category weight) is rounded to one decimal before
  it is summed, \<open>max_possible\<close> is the sum of the hundredfold weights of the categories
  present, the quotient is rounded to one decimal again, and every operation is the
  one on doubles. With a table whose weights are well formed and factor scores between
  0 and 100 the result lies between 0 and 100.
\<close>

theorem overall_score_rounded_quotient:
  assumes "0 < max_possible rw a"
  shows "overall_risk_score (calculate_risk_score_with rw gfs conf a) =
     py_round1 (fmul (fdiv
       (fsum (map (\<lambda>(c, cfg). py_round1 (fmul (category_score gfs a c cfg) (cfg_weight cfg)))
                (applicable rw a)))
       (fsum (map (\<lambda>(c, cfg). fmul (cfg_weight cfg) 100) (applicable rw a)))) 100) \<and>
     (list_all (\<lambda>(c, cfg). weights_ok cfg) rw \<and> (\<forall>c f. 0 \<le> gfs a c f \<and> gfs a c f \<le> 100) \<longrightarrow>
        0 \<le> overall_risk_score (calculate_risk_score_with rw gfs conf a) \<and>
        overall_risk_score (calculate_risk_score_with rw gfs conf a) \<le> 100)"
  using normalized_score_formula[OF assms, of gfs] overall_range[where rw=rw and gfs=gfs and a=a]
  by (simp add: calculate_risk_score_with_def)

theorem overall_score_rounded_quotient_witness:
  "0 < max_possible RISK_WEIGHTS house \<and>
   list_all (\<lambda>(c, cfg). weights_ok cfg) RISK_WEIGHTS \<and>
   (\<forall>c f. 0 \<le> gfs_edge house c f \<and> gfs_edge house c f \<le> 100) \<and>
   overall_risk_score (calculate_risk_score gfs_edge no_confidence house) =
     py_round1 (fmul (fdiv (fsum [fl (132 / 10), fl (34 / 10), 0, 0, fl (14 / 10), 0]) 90) 100) \<and>
   0 \<le> overall_risk_score (calculate_risk_score gfs_edge no_confidence house) \<and>
   overall_risk_score (calculate_risk_score gfs_edge no_confidence house) \<le> 100"
proof -
  have w: "0 < max_possible RISK_WEIGHTS house" by (simp add: max_possible_house)
  have g: "\<forall>c f. 0 \<le> gfs_edge house c f \<and> gfs_edge house c f \<le> 100"
    by (simp add: gfs_edge_def)
  have m: "fsum (map (\<lambda>(c, cfg). fmul (cfg_weight cfg) 100) (applicable RISK_WEIGHTS house)) = 90"
    using max_possible_house by (simp add: max_possible_applicable)
  show ?thesis
    using w g risk_weights_ok
      overall_score_rounded_quotient[OF w, of gfs_edge no_confidence]
    unfolding calculate_risk_score_def contributions_edge m by blast
qed

text \<open>
  Claim C4 as stated fails: with every factor scoring 0.16 on a house, each category
  contribution (0.04, 0.024 or 0.016) rounds to 0.0, so the code reports 0.0, where the
  quotient of the claim is above 0.15 (or above 15, were it scaled by 100).
\<close>

theorem overall_score_not_exact_quotient:
  "applicable RISK_WEIGHTS house \<noteq> [] \<and>
   overall_risk_score (calculate_risk_score gfs_flat no_confidence house) = 0 \<and>
   15 / 100 < spec_overall RISK_WEIGHTS gfs_flat house \<and>
   overall_risk_score (calculate_risk_score gfs_flat no_confidence house)
     \<noteq> spec_overall RISK_WEIGHTS gfs_flat house \<and>
   overall_risk_score (calculate_risk_score gfs_flat no_confidence house)
     \<noteq> 100 * spec_overall RISK_WEIGHTS gfs_flat house"
proof -
  have 1: "applicable RISK_WEIGHTS house \<noteq> []"
    by (simp add: applicable_def RISK_WEIGHTS_def applies_def)
  have "py_round1 0 = 0" by code_simp
  then have 2: "overall_risk_score (calculate_risk_score gfs_flat no_confidence house) = 0"
    by (simp add: calculate_risk_score_def calculate_risk_score_with_def normalized_flat)
  from 1 2 spec_overall_flat show ?thesis by simp
qed

subsection \<open>Rating bands\<close>

text \<open>
  Claim C5 as stated fails. On a house whose legal factors score 53, title factors 23
  and environmental factors 14 (the others 0), the contributions are 13.2, 3.4 and 1.4;
  their sum on doubles is 17.999999999999996 and the normalised score
  19.999999999999996, so the rating is LOW, while the overall score of the report is
  \<open>round(19.999999999999996, 1)\<close>, that is 20.0, for which the claim says MODERATE.
\<close>

theorem rating_not_band_of_overall_score:
  "overall_risk_score (calculate_risk_score gfs_edge no_confidence house) = 20 \<and>
   risk_rating (calculate_risk_score gfs_edge no_confidence house) = LOW \<and>
   spec_rating (overall_risk_score (calculate_risk_score gfs_edge no_confidence house)) = MODERATE \<and>
   (\<forall>c f. 0 \<le> gfs_edge house c f \<and> gfs_edge house c f \<le> 100)"
proof -
  have 1: "overall_risk_score (calculate_risk_score gfs_edge no_confidence house) = 20"
    by (simp add: calculate_risk_score_def calculate_risk_score_with_def overall_edge)
  have 2: "risk_rating (calculate_risk_score gfs_edge no_confidence house) = LOW"
    by (simp add: calculate_risk_score_def calculate_risk_score_with_def normalized_edge
        score_to_rating_def)
  from 1 2 show ?thesis by (simp add: spec_rating_def gfs_edge_def)
qed

text \<open>
  Claim C5, as the code has it. The rating is read off the normalised score before its
  final rounding, with the bands of the claim; the overall score of the report is that
  score rounded to one decimal. So the rating is the band of the overall score, except
  that an overall score of exactly 20, 40, 60 or 80 may come with the band below.
\<close>

theorem rating_is_band_of_unrounded_score:
  "risk_rating (calculate_risk_score_with rw gfs conf a) = spec_rating (normalized_score rw gfs a) \<and>
   overall_risk_score (calculate_risk_score_with rw gfs conf a) = py_round1 (normalized_score rw gfs a) \<and>
   (risk_rating (calculate_risk_score_with rw gfs conf a) =
      spec_rating (overall_risk_score (calculate_risk_score_with rw gfs conf a)) \<or>
    overall_risk_score (calculate_risk_score_with rw gfs conf a) = 20 \<and>
      risk_rating (calculate_risk_score_with rw gfs conf a) = LOW \<or>
    overall_risk_score (calculate_risk_score_with rw gfs conf a) = 40 \<and>
      risk_rating (calculate_risk_score_with rw gfs conf a) = MODERATE \<or>
    overall_risk_score (calculate_risk_score_with rw gfs conf a) = 60 \<and>
      risk_rating (calculate_risk_score_with rw gfs conf a) = ELEVATED \<or>
    overall_risk_score (calculate_risk_score_with rw gfs conf a) = 80 \<and>
      risk_rating (calculate_risk_score_with rw gfs conf a) = HIGH)"
proof -
  let ?n = "normalized_score rw gfs a"
  let ?s = "py_round1 ?n"
  have t: "risk_rating (calculate_risk_score_with rw gfs conf a) = spec_rating ?n"
    by (simp add: calculate_risk_score_with_def score_to_rating_def spec_rating_def)
  have s: "overall_risk_score (calculate_risk_score_with rw gfs conf a) = ?s"
    by (simp add: calculate_risk_score_with_def)
  have up: "?n < b \<Longrightarrow> py_round1 b = b \<Longrightarrow> 0 \<le> b \<Longrightarrow> ?s \<le> b" for b
    using py_round1_mono[of ?n b] by simp
  have lo: "b \<le> ?n \<Longrightarrow> py_round1 b = b \<Longrightarrow> 0 \<le> b \<Longrightarrow> b \<le> ?s" for b
    using py_round1_mono[of b ?n] by simp
  consider "?n < 20" | "20 \<le> ?n" "?n < 40" | "40 \<le> ?n" "?n < 60" | "60 \<le> ?n" "?n < 80"
    | "80 \<le> ?n"
    by linarith
  then have "spec_rating ?n = spec_rating ?s \<or> ?s = 20 \<and> spec_rating ?n = LOW \<or>
      ?s = 40 \<and> spec_rating ?n = MODERATE \<or> ?s = 60 \<and> spec_rating ?n = ELEVATED \<or>
      ?s = 80 \<and> spec_rating ?n = HIGH"
  proof cases
    case 1
    from up[OF 1 py_round1_fixed(1)] 1 show ?thesis by (auto simp: spec_rating_def)
  next
    case 2
    from lo[OF 2(1) py_round1_fixed(1)] up[OF 2(2) py_round1_fixed(2)] 2 show ?thesis
      by (auto simp: spec_rating_def)
  next
    case 3
    from lo[OF 3(1) py_round1_fixed(2)] up[OF 3(2) py_round1_fixed(3)] 3 show ?thesis
      by (auto simp: spec_rating_def)
  next
    case 4
    from lo[OF 4(1) py_round1_fixed(3)] up[OF 4(2) py_round1_fixed(4)] 4 show ?thesis
      by (auto simp: spec_rating_def)
  next
    case 5
    from lo[OF 5 py_round1_fixed(4)] 5 show ?thesis by (auto simp: spec_rating_def)
  qed
  with t s show ?thesis by simp
qed

subsection \<open>No applicable category\<close>

text \<open>The division is guarded: it never raises, and the normalised score of the
  model is the value the expression returns.\<close>

lemma normalized_score_never_raises:
  "normalized_score_result rw gfs a = Inr (normalized_score rw gfs a)"
  by (simp add: normalized_score_result_def normalized_score_def py_truediv_def fmul_def fdiv_def)

text \<open>
  Claim C9. When the weights of the applicable categories sum to zero (no category of
  the table applies, or the table is empty), \<open>max_possible\<close> is 0, the division is
  skipped and raises nothing, the overall score is exactly 50 and the rating is ELEVATED.
\<close>

theorem no_applicable_category_scores_50:
  assumes "max_possible rw a = 0"
  shows "normalized_score_result rw gfs a = Inr 50 \<and>
         overall_risk_score (calculate_risk_score_with rw gfs conf a) = 50 \<and>
         risk_rating (calculate_risk_score_with rw gfs conf a) = ELEVATED"
proof -
  have n: "normalized_score rw gfs a = 50" using assms by (simp add: normalized_score_def)
  show ?thesis
    using n py_round1_fixed(6)
    by (simp add: normalized_score_never_raises calculate_risk_score_with_def score_to_rating_def)
qed

theorem no_applicable_category_scores_50_witness:
  "max_possible strata_only house = 0 \<and>
   max_possible [] house = 0 \<and>
   normalized_score_result strata_only gfs_flat house = Inr 50 \<and>
   overall_risk_score (calculate_risk_score_with strata_only gfs_flat no_confidence house) = 50 \<and>
   risk_rating (calculate_risk_score_with strata_only gfs_flat no_confidence house) = ELEVATED \<and>
   overall_risk_score (calculate_risk_score_with [] gfs_flat no_confidence house) = 50"
proof -
  have h: "max_possible strata_only house = 0"
    by (simp add: max_possible_def strata_only_def applies_def house_def fsum_def)
  have e: "max_possible [] house = 0" by (simp add: max_possible_def fsum_def)
  show ?thesis
    using h e no_applicable_category_scores_50[OF h, of gfs_flat no_confidence]
      no_applicable_category_scores_50[OF e, of gfs_flat no_confidence]
    by simp
qed

subsection \<open>Exclusion of an inapplicable category\<close>

lemma category_scores_remove:
  "\<not> applies a cfg \<Longrightarrow>
   category_scores (xs @ (c, cfg) # ys) gfs a = category_scores (xs @ ys) gfs a"
  by (simp add: category_scores_def)

lemma max_possible_remove:
  "\<not> applies a cfg \<Longrightarrow> max_possible (xs @ (c, cfg) # ys) a = max_possible (xs @ ys) a"
  by (simp add: max_possible_def)

text \<open>
  Claim C2. A category that does not apply to the property type contributes neither to
  the total nor to the normaliser: the whole report is the one computed from the table
  with that category's entry (its weight and its factors) removed.
\<close>

theorem inapplicable_category_excluded:
  "\<not> applies a cfg \<Longrightarrow>
   calculate_risk_score_with (xs @ (c, cfg) # ys) gfs conf a =
   calculate_risk_score_with (xs @ ys) gfs conf a"
  by (simp add: calculate_risk_score_with_def normalized_score_def category_scores_remove
      max_possible_remove)

theorem inapplicable_category_excluded_witness:
  "\<not> applies house (snd (RISK_WEIGHTS ! 4)) \<and>
   fst (RISK_WEIGHTS ! 4) = ''strata'' \<and>
   calculate_risk_score gfs_mixed no_confidence house =
   calculate_risk_score_with (take 4 RISK_WEIGHTS @ drop 5 RISK_WEIGHTS) gfs_mixed no_confidence house"
proof -
  have h: "\<not> applies house (snd (RISK_WEIGHTS ! 4))"
    by (simp add: RISK_WEIGHTS_def applies_def house_def)
  have n: "fst (RISK_WEIGHTS ! 4) = ''strata''" by (simp add: RISK_WEIGHTS_def)
  have e: "take 4 RISK_WEIGHTS @ (''strata'', snd (RISK_WEIGHTS ! 4)) # drop 5 RISK_WEIGHTS
           = RISK_WEIGHTS"
    by (simp add: RISK_WEIGHTS_def)
  have "calculate_risk_score_with
          (take 4 RISK_WEIGHTS @ (''strata'', snd (RISK_WEIGHTS ! 4)) # drop 5 RISK_WEIGHTS)
          gfs_mixed no_confidence house =
        calculate_risk_score_with (take 4 RISK_WEIGHTS @ drop 5 RISK_WEIGHTS)
          gfs_mixed no_confidence house"
    using h by (rule inapplicable_category_excluded)
  then have "calculate_risk_score gfs_mixed no_confidence house =
        calculate_risk_score_with (take 4 RISK_WEIGHTS @ drop 5 RISK_WEIGHTS)
          gfs_mixed no_confidence house"
    unfolding calculate_risk_score_def by (subst (asm) e)
  with h n show ?thesis by blast
qed

subsection \<open>Top risk factors\<close>

lemma fold_remove1_mset: "mset (fold remove1 L A) = mset A - mset L"
  by (induction L arbitrary: A) simp_all

lemma top_n_by_take_sorted: "top_n_by key n A (take n (sort_key (\<lambda>x. - key x) A))"
proof -
  let ?S = "sort_key (\<lambda>x. - key x) A"
  let ?L = "take n ?S"
  have split: "mset A = mset ?L + mset (drop n ?S)"
    by (metis append_take_drop_id mset_append mset_sort)
  then have rest: "mset (fold remove1 ?L A) = mset (drop n ?S)"
    by (simp add: fold_remove1_mset)
  have len: "length ?L = min n (length A)" by simp
  have "size (mset (fold remove1 ?L A)) = size (mset (drop n ?S))" using rest by simp
  then have len2: "length (fold remove1 ?L A) + length ?L = length A" by simp
  have "sorted (map (\<lambda>x. - key x) ?S)" by (rule sorted_sort_key)
  then have "sorted (map (\<lambda>x. - key x) ?L @ map (\<lambda>x. - key x) (drop n ?S))"
    by (metis append_take_drop_id map_append)
  then have ord: "\<forall>x\<in>set ?L. \<forall>y\<in>set (drop n ?S). key y \<le> key x"
    by (auto simp: sorted_append)
  have "set (fold remove1 ?L A) = set (drop n ?S)" using rest by (metis set_mset_mset)
  with ord have "list_all (\<lambda>x. list_all (\<lambda>y. key y \<le> key x) (fold remove1 ?L A)) ?L"
    by (simp add: list_all_iff)
  with len len2 show ?thesis unfolding top_n_by_def by blast
qed

lemma top_risks_inputs:
  "top_risk_factors (calculate_risk_score_with rw gfs conf a) =
   take 5 (sort_key (\<lambda>x. - tr_score x) (all_factors (category_scores rw gfs a)))"
  by (simp add: calculate_risk_score_with_def get_top_risks_def)

text \<open>
  Claim C3, as the code has it. The list \<open>top_risk_factors\<close> holds the five factors
  with the highest raw score across the categories of the breakdown (all of them when
  there are fewer than five): the sort key of \<open>_get_top_risks\<close> is \<open>score\<close>, the raw
  score, and the weighted contribution is carried along as \<open>impact\<close> only.
\<close>

theorem top_factors_by_raw_score:
  "top_n_by tr_score 5
     (all_factors (category_breakdown (calculate_risk_score_with rw gfs conf a)))
     (top_risk_factors (calculate_risk_score_with rw gfs conf a))"
proof -
  let ?cs = "category_scores rw gfs a"
  have b: "category_breakdown (calculate_risk_score_with rw gfs conf a) = ?cs"
    by (simp add: calculate_risk_score_with_def)
  show ?thesis unfolding b top_risks_inputs by (rule top_n_by_take_sorted)
qed

theorem top_factors_by_raw_score_witness:
  "top_n_by tr_score 5
     (all_factors (category_breakdown (calculate_risk_score gfs_mixed no_confidence house)))
     (top_risk_factors (calculate_risk_score gfs_mixed no_confidence house)) \<and>
   length (top_risk_factors (calculate_risk_score gfs_mixed no_confidence house)) = 5"
proof -
  have "length (top_risk_factors (calculate_risk_score gfs_mixed no_confidence house)) = 5"
    by (simp add: calculate_risk_score_def top_risks_inputs all_factors_inputs applicable_def
        RISK_WEIGHTS_def applies_def house_def)
  then show ?thesis
    using top_factors_by_raw_score[of RISK_WEIGHTS gfs_mixed no_confidence house]
    unfolding calculate_risk_score_def by blast
qed

text \<open>
  Claim C3 as stated fails. On a house where \<open>social_housing_density\<close> scores 90 with
  weight 0.10 (contribution 9) and \<open>covenant_blocks_use\<close> scores 45 with weight 0.30
  (contribution 13.5), the code lists the former and leaves out the latter: the list is
  not a choice of the five highest weighted contributions.
\<close>

theorem top_factors_not_by_weighted_contribution:
  "map tr_factor (top_risk_factors (calculate_risk_score gfs_mixed no_confidence house)) =
     [''social_housing_density'', ''structural_defects'', ''price_vs_comparables'',
      ''illegal_works_detected'', ''caveat_severity''] \<and>
   \<not> top_n_by tr_impact 5
     (all_factors (category_breakdown (calculate_risk_score gfs_mixed no_confidence house)))
     (top_risk_factors (calculate_risk_score gfs_mixed no_confidence house))"
proof -
  have b: "category_breakdown (calculate_risk_score gfs_mixed no_confidence house) =
           category_scores RISK_WEIGHTS gfs_mixed house"
    by (simp add: calculate_risk_score_def calculate_risk_score_with_def)
  show ?thesis
    unfolding b unfolding calculate_risk_score_def top_risks_inputs all_factors_inputs
    by code_simp
qed

section \<open>Properties of the property input form\<close>

lemma starts_with_iff: "starts_with s sub \<longleftrightarrow> prefix sub s"
  by (induction s sub rule: starts_with.induct) auto

lemma includes_iff_sublist: "js_includes s sub \<longleftrightarrow> sublist sub s"
proof (induction s)
  case Nil
  then show ?case by (cases sub) simp_all
next
  case (Cons x xs)
  then show ?case by (simp add: starts_with_iff sublist_Cons_right)
qed

lemma includes_iff: "js_includes s sub \<longleftrightarrow> (\<exists>p q. s = p @ sub @ q)"
  unfolding includes_iff_sublist sublist_def by (rule refl)

text \<open>
  Claim C10. When the URL contains neither \<open>domain.com.au\<close> nor \<open>realestate.com.au\<close>
  as a substring, the Analyze button is disabled, whatever the rest of the state, and
  submitting the URL form leaves the state as it is and starts no analysis.
\<close>

theorem analyze_disabled_for_other_urls:
  assumes "\<nexists>p q. url st = p @ js ''domain.com.au'' @ q"
    and "\<nexists>p q. url st = p @ js ''realestate.com.au'' @ q"
  shows "analyze_disabled st \<and> submit_url_form st = (st, None)"
proof -
  have "\<not> isValidUrl st" unfolding isValidUrl_def includes_iff using assms by blast
  then show ?thesis by (simp add: analyze_disabled_def submit_url_form_def)
qed

theorem analyze_disabled_for_other_urls_witness:
  "(\<nexists>p q. url other_listing = p @ js ''domain.com.au'' @ q) \<and>
   (\<nexists>p q. url other_listing = p @ js ''realestate.com.au'' @ q) \<and>
   analyze_disabled other_listing \<and> submit_url_form other_listing = (other_listing, None)"
proof -
  have "\<not> js_includes (url other_listing) (js ''domain.com.au'')" by code_simp
  then have 1: "\<nexists>p q. url other_listing = p @ js ''domain.com.au'' @ q"
    unfolding includes_iff .
  have "\<not> js_includes (url other_listing) (js ''realestate.com.au'')" by code_simp
  then have 2: "\<nexists>p q. url other_listing = p @ js ''realestate.com.au'' @ q"
    unfolding includes_iff .
  from analyze_disabled_for_other_urls[OF 1 2] 1 2 show ?thesis by (intro conjI) simp_all
qed

text \<open>A listing of domain.com.au, for contrast: the button is enabled and the trimmed
  URL is handed to the analysis.\<close>

lemma domain_listing_is_analysed:
  "\<not> analyze_disabled domain_listing \<and>
   snd (submit_url_form domain_listing) = Some (js ''https://www.domain.com.au/12-smith-st-2000'')"
  by code_simp

section \<open>Properties of the gatekeeper\<close>

lemma killed_grows:
  "set (killed_categories s) \<subseteq> set (killed_categories (evaluate_rule cfloor facts r s))"
  by (auto simp: evaluate_rule_def)

lemma killed_grows_rules:
  "set (killed_categories s) \<subseteq> set (killed_categories (evaluate_rules cfloor facts rs s))"
proof (induction rs arbitrary: s)
  case Nil
  then show ?case by simp
next
  case (Cons r rs)
  show ?case
    using killed_grows[of s cfloor facts r] Cons.IH[of "evaluate_rule cfloor facts r s"]
    by auto
qed

lemma kill_rule_kills_category:
  assumes "rule_severity r = KILL" and "predicate r facts"
  shows "rule_category r \<in> set (killed_categories (evaluate_rule cfloor facts r s))"
  using assms by (simp add: evaluate_rule_def)

lemma kill_in_list_kills_category:
  assumes "r \<in> set rs" and "rule_severity r = KILL" and "predicate r facts"
  shows "rule_category r \<in> set (killed_categories (evaluate_rules cfloor facts rs s))"
  using assms(1)
proof (induction rs arbitrary: s)
  case Nil
  then show ?case by simp
next
  case (Cons x rs)
  show ?case
  proof (cases "x = r")
    case True
    have "rule_category r \<in> set (killed_categories (evaluate_rule cfloor facts r s))"
      using assms(2,3) by (rule kill_rule_kills_category)
    then show ?thesis
      using True killed_grows_rules[of "evaluate_rule cfloor facts r s" cfloor facts rs] by auto
  next
    case False
    with Cons.prems have "r \<in> set rs" by simp
    then show ?thesis using Cons.IH by simp
  qed
qed

text \<open>
  Claim C1. If the rule set holds a rule of severity KILL whose predicate is true of the
  facts, the verdict is REJECT, whatever the other rules do: pass, warn, or fire in other
  categories.
\<close>

theorem kill_dominates_verdict:
  assumes "r \<in> set (rules rs)" and "rule_severity r = KILL" and "predicate r facts"
  shows "result_verdict (evaluate rs facts) = REJECT"
proof -
  have "r \<in> set (sort_key rule_order (rules rs))" using assms(1) by simp
  from kill_in_list_kills_category[OF this assms(2,3), of "confidence_floor rs" initial_state]
  have "killed_categories (evaluate_rules (confidence_floor rs) facts
          (sort_key rule_order (rules rs)) initial_state) \<noteq> []"
    by auto
  then show ?thesis by (simp add: evaluate_def derive_verdict_def Let_def)
qed

theorem kill_dominates_verdict_witness:
  "flood_rule \<in> set (rules scenario_rules) \<and> rule_severity flood_rule = KILL \<and>
   predicate flood_rule scenario_facts \<and>
   result_verdict (evaluate scenario_rules scenario_facts) = REJECT"
proof -
  have 1: "flood_rule \<in> set (rules scenario_rules)" by (simp add: scenario_rules_def)
  have 2: "rule_severity flood_rule = KILL" by (simp add: flood_rule_def)
  have 3: "predicate flood_rule scenario_facts" by code_simp
  from kill_dominates_verdict[OF 1 2 3] 1 2 3 show ?thesis by (intro conjI)
qed

text \<open>The scenario of section 8 of the specification, with the density warning
  firing beside the flood kill: the verdict is REJECT, the only kill reason is the flood,
  the ANEF check passes and the density check warns.\<close>

lemma flood_scenario:
  "result_verdict (evaluate scenario_rules scenario_facts) = REJECT \<and>
   kill_reasons (evaluate scenario_rules scenario_facts) = [''flood risk''] \<and>
   map (\<lambda>c. (check_category c, check_score c)) (checks (evaluate scenario_rules scenario_facts)) =
     [(''flood'', FAIL), (''flight_path'', PASS), (''social_housing'', WARNING)]"
  by code_simp

section \<open>Properties of the document pipeline\<close>















section \<open>Properties of the retrieval engine\<close>

text \<open>
  Claim C8. When at least one chunk was retrieved, every answer that \<open>query\<close> returns
  is the sentinel or carries a citation, and an answer of the language model that is not
  the sentinel and cites no retrieved chunk is rejected as \<open>AmbiguousRetrieval\<close>.
\<close>

theorem citation_invariant:
  assumes "retrieve cfg (filter (\<lambda>c. document_id c = did) chunk_set) question \<noteq> []"
  shows "(\<forall>a. query cfg chunk_set did question = Inr a \<longrightarrow>
            answer_text a = NOT_FOUND \<or> citations a \<noteq> []) \<and>
         (\<forall>txt. complete cfg question
                  (retrieve cfg (filter (\<lambda>c. document_id c = did) chunk_set) question) = txt \<and>
                txt \<noteq> NOT_FOUND \<and>
                cite cfg txt (retrieve cfg (filter (\<lambda>c. document_id c = did) chunk_set) question) = []
            \<longrightarrow> query cfg chunk_set did question = Inl (AmbiguousRetrieval txt))"
  using assms by (auto simp: query_def Let_def split: if_splits)

theorem citation_invariant_witness:
  "retrieve uncited_llm (filter (\<lambda>c. document_id c = ''contract'') demo_chunk_set) ''Who sells?'' \<noteq> [] \<and>
   query uncited_llm demo_chunk_set ''contract'' ''Who sells?''
     = Inl (AmbiguousRetrieval ''The vendor sells.'') \<and>
   retrieve citing_llm (filter (\<lambda>c. document_id c = ''contract'') demo_chunk_set) ''Who sells?'' \<noteq> [] \<and>
   (\<exists>a. query citing_llm demo_chunk_set ''contract'' ''Who sells?'' = Inr a \<and>
        answer_text a \<noteq> NOT_FOUND \<and> citations a \<noteq> [])"
proof -
  have 1: "retrieve uncited_llm (filter (\<lambda>c. document_id c = ''contract'') demo_chunk_set) ''Who sells?'' \<noteq> []"
    by code_simp
  have 2: "complete uncited_llm ''Who sells?''
      (retrieve uncited_llm (filter (\<lambda>c. document_id c = ''contract'') demo_chunk_set) ''Who sells?'')
      = ''The vendor sells.''"
    by (simp add: uncited_llm_def)
  have 3: "''The vendor sells.'' \<noteq> NOT_FOUND" by (simp add: NOT_FOUND_def)
  have 4: "cite uncited_llm ''The vendor sells.''
      (retrieve uncited_llm (filter (\<lambda>c. document_id c = ''contract'') demo_chunk_set) ''Who sells?'') = []"
    by (simp add: cite_def uncited_llm_def)
  from citation_invariant[OF 1] 2 3 4
  have 5: "query uncited_llm demo_chunk_set ''contract'' ''Who sells?''
     = Inl (AmbiguousRetrieval ''The vendor sells.'')" by blast
  have 6: "retrieve citing_llm (filter (\<lambda>c. document_id c = ''contract'') demo_chunk_set) ''Who sells?'' \<noteq> []"
    by code_simp
  have "map_sum id answer_text (query citing_llm demo_chunk_set ''contract'' ''Who sells?'')
          = Inr ''The vendor sells [p. 1].''"
    by code_simp
  then obtain a where a: "query citing_llm demo_chunk_set ''contract'' ''Who sells?'' = Inr a"
    and t: "answer_text a = ''The vendor sells [p. 1].''"
    by (cases "query citing_llm demo_chunk_set ''contract'' ''Who sells?''") auto
  have 7: "answer_text a \<noteq> NOT_FOUND" using t by (simp add: NOT_FOUND_def)
  from citation_invariant[OF 6] a 7 have 8: "citations a \<noteq> []" by blast
  from 1 5 6 a 7 8 show ?thesis by blast
qed

text \<open>An answer that cites page 1 is returned with the retrieved chunks of that page
  as its citations.\<close>

lemma cited_answer_is_returned:
  "map_sum id (\<lambda>a. (answer_text a, citations a))
     (query citing_llm demo_chunk_set ''contract'' ''Who sells?'') =
   Inr (''The vendor sells [p. 1].'',
        [\<lparr>cited_chunk = (''contract'', 2), cited_page = 1\<rparr>,
         \<lparr>cited_chunk = (''contract'', 1), cited_page = 1\<rparr>,
         \<lparr>cited_chunk = (''contract'', 3), cited_page = 1\<rparr>])"
  by code_simp

end
